theory Spec2Isabelle
  imports Main "HOL-Library.Sublist"
begin

section \<open>Python values used by \<open>datasets/diagram_offline.py\<close>\<close>

text \<open>
  Exceptions are values.  \<open>ValueError\<close> carries the place that raised it, because the
  source raises it from several places (the \<open>range\<close> built with a zero step, the
  missing archive folder of \<open>load_diagrams\<close>, \<open>float\<close>, the \<open>ChargeRegime\<close>
  constructor, \<open>numpy.loadtxt\<close> and the shapely constructors).
\<close>

datatype reason = ZeroStep | FolderNotFound | BadFloat | BadRegime | BadTable | BadGeometry

datatype error = IndexError | TypeError | KeyError | ValueError reason

text \<open>
  Indexing a sequence (a list or a one-dimensional numpy array) with \<open>xs[i]\<close>: an index
  from \<open>-len\<close> to \<open>-1\<close> counts from the end, anything outside \<open>[-len, len)\<close> raises
  \<open>IndexError\<close>.
\<close>

definition py_index :: "'a list \<Rightarrow> int \<Rightarrow> error + 'a" where
  "py_index xs i =
     (let n = int (length xs) in
      if 0 \<le> i \<and> i < n then Inr (xs ! nat i)
      else if - n \<le> i \<and> i < 0 then Inr (xs ! nat (n + i))
      else Inl IndexError)"

text \<open>
  \<open>range(0, stop, step)\<close>: a zero step raises \<open>ValueError\<close>; otherwise the members are
  \<open>0, step, 2*step, ...\<close> as long as they are before \<open>stop\<close> in the direction of the step.
\<close>

definition range_len :: "int \<Rightarrow> int \<Rightarrow> nat" where
  "range_len stop step =
     (if 0 < step then (if 0 < stop then nat ((stop - 1) div step + 1) else 0)
      else if stop < 0 then nat ((- stop - 1) div (- step) + 1) else 0)"

definition py_range :: "int \<Rightarrow> int \<Rightarrow> error + int list" where
  "py_range stop step =
     (if step = 0 then Inl (ValueError ZeroStep)
      else Inr (map (\<lambda>k. int k * step) [0..<range_len stop step]))"

text \<open>
  A slice \<open>xs[lo:hi]\<close> never raises: a negative bound counts from the end and every bound
  is clamped to \<open>[0, len]\<close>.
\<close>

definition slice_bound :: "nat \<Rightarrow> int \<Rightarrow> nat" where
  "slice_bound n b = (if b < 0 then nat (max (b + int n) 0) else min (nat b) n)"

definition py_slice :: "int \<Rightarrow> int \<Rightarrow> 'a list \<Rightarrow> 'a list" where
  "py_slice lo hi xs =
     (let l = slice_bound (length xs) lo; h = slice_bound (length xs) hi
      in take (h - l) (drop l xs))"

text \<open>
  A two-dimensional tensor: its rows, and the number of columns (kept apart from the
  rows, as the shape of a tensor is, so that a tensor with no row still has a width).
\<close>

record 'c tensor =
  t_rows :: "'c list list"
  t_cols :: nat


definition shape :: "'c tensor \<Rightarrow> nat \<times> nat" where
  "shape t = (length (t_rows t), t_cols t)"

text \<open>\<open>t[y0:y1, x0:x1]\<close>\<close>

definition tslice :: "'c tensor \<Rightarrow> int \<Rightarrow> int \<Rightarrow> int \<Rightarrow> int \<Rightarrow> 'c tensor" where
  "tslice t y0 y1 x0 x1 =
     \<lparr>t_rows = map (py_slice x0 x1) (py_slice y0 y1 (t_rows t)),
      t_cols = slice_bound (t_cols t) x1 - slice_bound (t_cols t) x0\<rparr>"

section \<open>The diagram\<close>

text \<open>
  Modelled from the spec: the enumeration \<open>ChargeRegime\<close> of \<open>classes/data_structures.py\<close>
  is not among the sources.  The spec describes it as an enumerated tag, with an explicit
  \<open>UNKNOWN\<close> sentinel, parsed from a string label; the other members are kept by their label.
\<close>

datatype ChargeRegime = UNKNOWN | REGIME string

text \<open>
  The two settings read by the code below (\<open>utils/settings.py\<close> is configuration of the
  caller).
\<close>

record settings =
  use_ewma :: bool
  load_parasitic_lines :: bool

text \<open>
  \<open>DiagramOffline\<close>.  \<open>'v\<close> is the type of a voltage, \<open>'c\<close> of a measured value, \<open>'l\<close> of
  a shapely \<open>LineString\<close> and \<open>'p\<close> of a shapely \<open>Polygon\<close>.  \<open>None\<close> is Python's \<open>None\<close>;
  the field \<open>values\<close> is \<open>values_t\<close> here.
\<close>

record ('v, 'c, 'l, 'p) DiagramOffline =
  name :: string
  x_axes :: "'v list"
  y_axes :: "'v list"
  values_t :: "'c tensor"
  values_norm :: "'c tensor option"
  transition_lines :: "'l list option"
  charge_areas :: "(ChargeRegime \<times> 'p) list option"

text \<open>
  The rectangle handed to \<open>Polygon\<close>, by its four corners in the order of the source.
\<close>

definition patch_shape :: "'v \<Rightarrow> 'v \<Rightarrow> 'v \<Rightarrow> 'v \<Rightarrow> ('v \<times> 'v) list" where
  "patch_shape start_x_v end_x_v start_y_v end_y_v =
     [(start_x_v, start_y_v), (end_x_v, start_y_v), (end_x_v, end_y_v), (start_x_v, end_y_v)]"

text \<open>
  \<open>any([line.intersects(patch_shape) for line in self.transition_lines])\<close>.  The shapely
  test \<open>line.intersects(Polygon(corners))\<close> is the parameter \<open>isect\<close>; iterating over
  \<open>None\<close> raises \<open>TypeError\<close>.
\<close>

definition any_line :: "('l \<Rightarrow> ('v \<times> 'v) list \<Rightarrow> bool) \<Rightarrow> 'l list option \<Rightarrow> ('v \<times> 'v) list
    \<Rightarrow> error + bool" where
  "any_line isect ls sh =
     (case ls of None \<Rightarrow> Inl TypeError
      | Some lines \<Rightarrow> Inr (list_ex (\<lambda>line. isect line sh) lines))"

subsection \<open>\<open>get_patches\<close>\<close>

text \<open>
  A generator is modelled by what it yields, in order, and by how it ends: \<open>None\<close> when it
  is exhausted, \<open>Some e\<close> when the exception \<open>e\<close> leaves it after the items yielded so far.

  \<open>patches_x\<close> is the inner loop over \<open>patch_x\<close> for one row of windows; \<open>psx\<close> is
  \<open>patch_size_x\<close> after the three pixels of the EWMA setting have been added.
\<close>

fun patches_x :: "('l \<Rightarrow> ('v \<times> 'v) list \<Rightarrow> bool) \<Rightarrow> settings \<Rightarrow> ('v, 'c, 'l, 'p) DiagramOffline
    \<Rightarrow> int \<Rightarrow> int \<Rightarrow> int \<Rightarrow> int \<Rightarrow> 'v \<Rightarrow> 'v \<Rightarrow> int list
    \<Rightarrow> ('c tensor \<times> bool) list \<times> error option" where
  "patches_x isect s d psx label_offset_x start_y end_y start_y_v end_y_v [] = ([], None)"
| "patches_x isect s d psx label_offset_x start_y end_y start_y_v end_y_v (patch_x # rest) =
     (let start_x = patch_x; end_x = patch_x + psx in
      case py_index (x_axes d) (start_x + label_offset_x + (if use_ewma s then 3 else 0)) of
        Inl e \<Rightarrow> ([], Some e)
      | Inr start_x_v \<Rightarrow>
     (case py_index (x_axes d) (end_x - label_offset_x) of
        Inl e \<Rightarrow> ([], Some e)
      | Inr end_x_v \<Rightarrow>
     (let patch = tslice (values_t d) start_y end_y start_x end_x in
      case any_line isect (transition_lines d)
             (patch_shape start_x_v end_x_v start_y_v end_y_v) of
        Inl e \<Rightarrow> ([], Some e)
      | Inr label \<Rightarrow>
          (case patches_x isect s d psx label_offset_x start_y end_y start_y_v end_y_v rest of
             (items, ending) \<Rightarrow> ((patch, label) # items, ending)))))"

text \<open>The outer loop over \<open>patch_y\<close>; the inner \<open>range\<close> is built anew in every row.\<close>

fun patches_y :: "('l \<Rightarrow> ('v \<times> 'v) list \<Rightarrow> bool) \<Rightarrow> settings \<Rightarrow> ('v, 'c, 'l, 'p) DiagramOffline
    \<Rightarrow> int \<Rightarrow> int \<Rightarrow> int \<Rightarrow> int \<Rightarrow> int \<Rightarrow> int \<Rightarrow> int list
    \<Rightarrow> ('c tensor \<times> bool) list \<times> error option" where
  "patches_y isect s d psx psy overlap_size_x label_offset_x label_offset_y diagram_size_x [] =
     ([], None)"
| "patches_y isect s d psx psy overlap_size_x label_offset_x label_offset_y diagram_size_x
       (patch_y # rest) =
     (let start_y = patch_y; end_y = patch_y + psy in
      case py_index (y_axes d) (start_y + label_offset_y) of
        Inl e \<Rightarrow> ([], Some e)
      | Inr start_y_v \<Rightarrow>
     (case py_index (y_axes d) (end_y - label_offset_y) of
        Inl e \<Rightarrow> ([], Some e)
      | Inr end_y_v \<Rightarrow>
     (case py_range (diagram_size_x - psx) (psx - overlap_size_x) of
        Inl e \<Rightarrow> ([], Some e)
      | Inr xs \<Rightarrow>
     (case patches_x isect s d psx label_offset_x start_y end_y start_y_v end_y_v xs of
        (items, Some e) \<Rightarrow> (items, Some e)
      | (items, None) \<Rightarrow>
          (case patches_y isect s d psx psy overlap_size_x label_offset_x label_offset_y
                  diagram_size_x rest of
             (later, ending) \<Rightarrow> (items @ later, ending))))))"

fun get_patches :: "('l \<Rightarrow> ('v \<times> 'v) list \<Rightarrow> bool) \<Rightarrow> settings
    \<Rightarrow> ('v, 'c, 'l, 'p) DiagramOffline \<Rightarrow> int \<times> int \<Rightarrow> int \<times> int \<Rightarrow> int \<times> int
    \<Rightarrow> ('c tensor \<times> bool) list \<times> error option" where
  "get_patches isect s d (patch_size_x, patch_size_y) (overlap_size_x, overlap_size_y)
       (label_offset_x, label_offset_y) =
     (let diagram_size_y = int (fst (shape (values_t d)));
          diagram_size_x = int (snd (shape (values_t d)));
          psx = (if use_ewma s then patch_size_x + 3 else patch_size_x)
      in case py_range (diagram_size_y - patch_size_y) (patch_size_y - overlap_size_y) of
           Inl e \<Rightarrow> ([], Some e)
         | Inr ys \<Rightarrow> patches_y isect s d psx patch_size_y overlap_size_x label_offset_x
                      label_offset_y diagram_size_x ys)"

subsection \<open>\<open>get_charge\<close>\<close>

text \<open>
  The loop over the labelled areas; \<open>contains\<close> is shapely's \<open>area.contains(point)\<close>.
\<close>

fun first_regime :: "('p \<Rightarrow> 'v \<times> 'v \<Rightarrow> bool) \<Rightarrow> 'v \<times> 'v \<Rightarrow> (ChargeRegime \<times> 'p) list
    \<Rightarrow> ChargeRegime" where
  "first_regime contains point [] = UNKNOWN"
| "first_regime contains point ((regime, area) # rest) =
     (if contains area point then regime else first_regime contains point rest)"

text \<open>The two axis lookups sit in a \<open>try\<close> whose handler catches \<open>IndexError\<close> only.\<close>

definition get_charge :: "('p \<Rightarrow> 'v \<times> 'v \<Rightarrow> bool) \<Rightarrow> ('v, 'c, 'l, 'p) DiagramOffline
    \<Rightarrow> int \<Rightarrow> int \<Rightarrow> error + ChargeRegime" where
  "get_charge contains d coord_x coord_y =
     (case py_index (x_axes d) coord_x of
        Inl e \<Rightarrow> (if e = IndexError then Inr UNKNOWN else Inl e)
      | Inr volt_x \<Rightarrow>
     (case py_index (y_axes d) coord_y of
        Inl e \<Rightarrow> (if e = IndexError then Inr UNKNOWN else Inl e)
      | Inr volt_y \<Rightarrow>
     (case charge_areas d of
        None \<Rightarrow> Inl TypeError
      | Some areas \<Rightarrow> Inr (first_regime contains (volt_x, volt_y) areas))))"

subsection \<open>\<open>is_line_in_patch\<close>\<close>

fun is_line_in_patch :: "('l \<Rightarrow> ('v \<times> 'v) list \<Rightarrow> bool) \<Rightarrow> ('v, 'c, 'l, 'p) DiagramOffline
    \<Rightarrow> int \<times> int \<Rightarrow> int \<times> int \<Rightarrow> int \<times> int \<Rightarrow> error + bool" where
  "is_line_in_patch isect d (coord_x, coord_y) (size_x, size_y) (offset_x, offset_y) =
     (case py_index (x_axes d) (coord_x + offset_x) of
        Inl e \<Rightarrow> Inl e
      | Inr start_x_v \<Rightarrow>
     (case py_index (y_axes d) (coord_y + offset_y) of
        Inl e \<Rightarrow> Inl e
      | Inr start_y_v \<Rightarrow>
     (case py_index (x_axes d) (coord_x + size_x - offset_x) of
        Inl e \<Rightarrow> Inl e
      | Inr end_x_v \<Rightarrow>
     (case py_index (y_axes d) (coord_y + size_y - offset_y) of
        Inl e \<Rightarrow> Inl e
      | Inr end_y_v \<Rightarrow>
          any_line isect (transition_lines d)
            (patch_shape start_x_v end_x_v start_y_v end_y_v)))))"


text \<open>
  The top-left corners \<open>(patch_x, patch_y)\<close> that the two loops of \<open>get_patches\<close> visit, in
  the order of the visit: the members of the two \<open>range\<close> expressions of the source, the
  inner one running inside the outer one.
\<close>

definition origins :: "int list \<Rightarrow> int list \<Rightarrow> (int \<times> int) list" where
  "origins xs ys = concat (map (\<lambda>y. map (\<lambda>x. (x, y)) xs) ys)"

definition window_origins :: "settings \<Rightarrow> ('v, 'c, 'l, 'p) DiagramOffline \<Rightarrow> int \<times> int \<Rightarrow> int \<times> int
    \<Rightarrow> (int \<times> int) list" where
  "window_origins s d patch_size overlap =
     (let psx = (if use_ewma s then fst patch_size + 3 else fst patch_size);
          psy = snd patch_size
      in case py_range (int (fst (shape (values_t d))) - psy) (psy - snd overlap) of
           Inl e \<Rightarrow> []
         | Inr ys \<Rightarrow>
        (case py_range (int (snd (shape (values_t d))) - psx) (psx - fst overlap) of
           Inl e \<Rightarrow> []
         | Inr xs \<Rightarrow> origins xs ys))"

section \<open>Loading\<close>

subsection \<open>\<open>_load_interpolated_csv\<close>\<close>

text \<open>
  The input is the table that \<open>numpy.loadtxt\<close> reads, one list of numbers for each line
  of the file (reading the digits is left to numpy).  \<open>loadtxt\<close> raises \<open>ValueError\<close> when
  the lines differ in length, and it drops the dimensions of length one from its result:
  with a single line, or a single column, \<open>compact_diagram[0][0]\<close> indexes a scalar and
  raises \<open>IndexError\<close>, as \<open>compact_diagram[0][2]\<close> does with two columns.

  \<open>to_float\<close> is the conversion of \<open>torch.tensor(values, dtype=torch.float)\<close>, from the
  double precision of numpy to single precision.  The arithmetic of the axes is written
  with the operations of the number type \<open>'a\<close>.
\<close>

definition load_interpolated_csv :: "('a::semiring_1 \<Rightarrow> 'c) \<Rightarrow> 'a list list \<Rightarrow> bool
    \<Rightarrow> error + ('a list \<times> 'a list \<times> 'c tensor)" where
  "load_interpolated_csv to_float compact_diagram invert_y_axis =
     (if \<not> list_all (\<lambda>r. length r = length (hd compact_diagram)) compact_diagram
      then Inl (ValueError BadTable)
      else if length compact_diagram < 2 \<or> length (hd compact_diagram) < 3 then Inl IndexError
      else
        (let x_start = hd compact_diagram ! 0;
             y_start = hd compact_diagram ! 1;
             step = hd compact_diagram ! 2;
             vals = tl compact_diagram;
             vals = (if invert_y_axis then rev vals else vals);
             x = map (\<lambda>i. of_nat i * step + x_start) [0..<length (hd compact_diagram)];
             y = map (\<lambda>j. of_nat j * step + y_start) [0..<length vals]
         in Inr (x, y, \<lparr>t_rows = map (map to_float) vals,
                         t_cols = length (hd compact_diagram)\<rparr>)))"

text \<open>
  Single precision on the integers: \<open>single_of_int m\<close> is the number that the conversion
  to \<open>torch.float\<close> gives for the double \<open>m\<close>, which is \<open>m\<close> rounded to 24 significant bits,
  a tie going to the even significand (for \<open>m\<close> below the overflow threshold of single
  precision).  \<open>bit_len\<close> is the number of binary digits.
\<close>

fun bit_len :: "nat \<Rightarrow> nat" where
  "bit_len n = (if n = 0 then 0 else Suc (bit_len (n div 2)))"

definition single_of_nat :: "nat \<Rightarrow> nat" where
  "single_of_nat m =
     (if bit_len m \<le> 24 then m
      else
        (let e = bit_len m - 24;
             q = m div 2 ^ e;
             r = m mod 2 ^ e;
             half = 2 ^ (e - 1);
             q' = (if half < r \<or> (r = half \<and> odd q) then q + 1 else q)
         in q' * 2 ^ e))"

definition single_of_int :: "int \<Rightarrow> int" where
  "single_of_int m = (if m < 0 then - int (single_of_nat (nat (- m))) else int (single_of_nat (nat m)))"

subsection \<open>The label export\<close>

text \<open>
  One row of the label file (a Labelbox export, one JSON object for each line), as far as
  \<open>load_diagrams\<close> reads it.  A key that every row of the export has is a field; an
  optional key is an \<open>option\<close>, and reading it when it is absent raises \<open>KeyError\<close>; a
  point \<open>{x, y}\<close> is a pair.  \<open>projects\<close> holds the values of the \<open>projects\<close> dictionary in
  its order, and \<open>p_labels\<close> the list under \<open>labels\<close>, of which the code reads the
  \<open>annotations\<close> of the first member.  The name of a project, which the code converts
  to upper case, is kept as the list of its Unicode code points; the other strings, which
  the code only compares, are lists of 8-bit characters.
\<close>

record classification =
  c_name :: string
  text_answer :: "string option"
  radio_answer :: "string option"

record 'a label_object =
  o_name :: string
  o_line :: "('a \<times> 'a) list option"
  o_polygon :: "('a \<times> 'a) list option"

record 'a annotations =
  classifications :: "classification list"
  objects :: "'a label_object list"

record 'a project =
  p_name :: "nat list"
  p_labels :: "'a annotations list"

record 'a label_data =
  external_id :: string
  projects :: "'a project list"

text \<open>
  What the loaders call and the sources do not define: \<open>float\<close> on a string (\<open>None\<close>
  when it raises \<open>ValueError\<close>), \<open>str.upper\<close> on the code points of a string (which is
  not limited to the ASCII letters: the long s, code point 383, becomes \<open>S\<close>), the
  conversion to single precision, the helper
  \<open>_coord_to_volt\<close> (pixel coordinates, axis minimum, axis maximum, pixel size, snap
  margin, inversion), the shapely constructors \<open>LineString\<close> and \<open>Polygon\<close>
  (\<open>None\<close> when they raise \<open>ValueError\<close>, as they do on too few points), and the
  constructor of the enumeration \<open>ChargeRegime\<close> from a name (\<open>None\<close> when it raises
  \<open>ValueError\<close>).
\<close>

record ('a, 'c, 'l, 'p) collaborators =
  float_of :: "string \<Rightarrow> 'a option"
  str_upper :: "nat list \<Rightarrow> nat list"
  to_float :: "'a \<Rightarrow> 'c"
  coord_to_volt :: "'a list \<Rightarrow> 'a \<Rightarrow> 'a \<Rightarrow> 'a \<Rightarrow> int \<Rightarrow> bool \<Rightarrow> 'a list"
  line_string :: "('a \<times> 'a) list \<Rightarrow> 'l option"
  polygon_of :: "('a \<times> 'a) list \<Rightarrow> 'p option"
  regime_of :: "string \<Rightarrow> ChargeRegime option"

subsection \<open>\<open>_load_lines_annotations\<close> and \<open>_load_charge_annotations\<close>\<close>

fun load_lines_annotations :: "('a, 'c, 'l, 'p) collaborators \<Rightarrow> 'a label_object list
    \<Rightarrow> 'a list \<Rightarrow> 'a list \<Rightarrow> 'a \<Rightarrow> int \<Rightarrow> error + 'l list" where
  "load_lines_annotations env [] x y pixel_size snap = Inr []"
| "load_lines_annotations env (line # rest) x y pixel_size snap =
     (case o_line line of
        None \<Rightarrow> Inl KeyError
      | Some pts \<Rightarrow>
     (case py_index x 0 of Inl e \<Rightarrow> Inl e | Inr x_first \<Rightarrow>
     (case py_index x (- 1) of Inl e \<Rightarrow> Inl e | Inr x_last \<Rightarrow>
     (case py_index y 0 of Inl e \<Rightarrow> Inl e | Inr y_first \<Rightarrow>
     (case py_index y (- 1) of Inl e \<Rightarrow> Inl e | Inr y_last \<Rightarrow>
     (let line_x = coord_to_volt env (map fst pts) x_first x_last pixel_size snap False;
          line_y = coord_to_volt env (map snd pts) y_first y_last pixel_size snap True
      in case line_string env (zip line_x line_y) of
           None \<Rightarrow> Inl (ValueError BadGeometry)
         | Some line_obj \<Rightarrow>
        (case load_lines_annotations env rest x y pixel_size snap of
           Inl e \<Rightarrow> Inl e
         | Inr processed_lines \<Rightarrow> Inr (line_obj # processed_lines))))))))"

fun load_charge_annotations :: "('a, 'c, 'l, 'p) collaborators \<Rightarrow> 'a label_object list
    \<Rightarrow> 'a list \<Rightarrow> 'a list \<Rightarrow> 'a \<Rightarrow> int \<Rightarrow> error + (ChargeRegime \<times> 'p) list" where
  "load_charge_annotations env [] x y pixel_size snap = Inr []"
| "load_charge_annotations env (area # rest) x y pixel_size snap =
     (case o_polygon area of
        None \<Rightarrow> Inl KeyError
      | Some pts \<Rightarrow>
     (case py_index x 0 of Inl e \<Rightarrow> Inl e | Inr x_first \<Rightarrow>
     (case py_index x (- 1) of Inl e \<Rightarrow> Inl e | Inr x_last \<Rightarrow>
     (case py_index y 0 of Inl e \<Rightarrow> Inl e | Inr y_first \<Rightarrow>
     (case py_index y (- 1) of Inl e \<Rightarrow> Inl e | Inr y_last \<Rightarrow>
     (let area_x = coord_to_volt env (map fst pts) x_first x_last pixel_size snap False;
          area_y = coord_to_volt env (map snd pts) y_first y_last pixel_size snap True
      in case polygon_of env (zip area_x area_y) of
           None \<Rightarrow> Inl (ValueError BadGeometry)
         | Some area_obj \<Rightarrow>
        (case regime_of env (o_name area) of
           None \<Rightarrow> Inl (ValueError BadRegime)
         | Some regime \<Rightarrow>
        (case load_charge_annotations env rest x y pixel_size snap of
           Inl e \<Rightarrow> Inl e
         | Inr processed_areas \<Rightarrow> Inr ((regime, area_obj) # processed_areas)))))))))"


subsection \<open>\<open>load_diagrams\<close>\<close>

text \<open>The string \<open>'QDSD'\<close> by its code points.\<close>

definition QDSD :: "nat list" where
  "QDSD = map of_char ''QDSD''"

text \<open>\<open>sub in str\<close> on strings: \<open>sub\<close> occurs in \<open>str\<close> as a block.\<close>

fun str_in :: "string \<Rightarrow> string \<Rightarrow> bool" where
  "str_in sub [] = (sub = [])"
| "str_in sub (c # cs) = (prefix sub (c # cs) \<or> str_in sub cs)"

text \<open>
  The dictionary \<open>labels\<close>, filled row by row: a later row replaces an earlier one of the
  same \<open>external_id\<close>.
\<close>

definition labels_of :: "'a label_data list \<Rightarrow> (string \<rightharpoonup> 'a label_data)" where
  "labels_of rows = fold (\<lambda>label_data labels. labels(external_id label_data \<mapsto> label_data))
                      rows Map.empty"

text \<open>
  The classifications of one diagram, read inside the second \<open>try\<close>: \<open>None\<close> is the
  \<open>StopIteration\<close> that the handler catches, \<open>Some (label_pixel_size, is_single_dot)\<close> the
  two values; every other exception leaves the function.
\<close>

definition read_classifications :: "('a, 'c, 'l, 'p) collaborators \<Rightarrow> classification list
    \<Rightarrow> error + ('a \<times> bool) option" where
  "read_classifications env cls =
     (case find (\<lambda>l. c_name l = ''pixel_size_volt'') cls of
        None \<Rightarrow> Inr None
      | Some c \<Rightarrow>
     (case text_answer c of
        None \<Rightarrow> Inl KeyError
      | Some content \<Rightarrow>
     (case float_of env content of
        None \<Rightarrow> Inl (ValueError BadFloat)
      | Some label_pixel_size \<Rightarrow>
     (case find (\<lambda>l. c_name l = ''nb_dot'') cls of
        None \<Rightarrow> Inr None
      | Some c' \<Rightarrow>
     (case radio_answer c' of
        None \<Rightarrow> Inl KeyError
      | Some nb_dots \<Rightarrow> Inr (Some (label_pixel_size, nb_dots = ''single'')))))))"

text \<open>
  The state of the loop over the archive: the diagrams loaded so far and the three
  counters, which the source reports through the logger once the loop is over.
\<close>

record ('v, 'c, 'l, 'p) load_state =
  diagrams :: "('v, 'c, 'l, 'p) DiagramOffline list"
  nb_no_label :: nat
  nb_excluded :: nat
  nb_filtered :: nat

text \<open>
  The end of the loop body, from the opening of the grid file on.  \<open>table\<close> is what
  \<open>numpy.loadtxt\<close> reads from the file once it is decompressed.
\<close>

definition build_diagram :: "('a::semiring_1, 'c, 'l, 'p) collaborators \<Rightarrow> settings \<Rightarrow> bool \<Rightarrow> bool
    \<Rightarrow> ('a, 'c, 'l, 'p) load_state \<Rightarrow> string \<Rightarrow> 'a list list \<Rightarrow> 'a annotations \<Rightarrow> 'a
    \<Rightarrow> error + ('a, 'c, 'l, 'p) load_state" where
  "build_diagram env s load_lines load_areas st file_basename table current_labels
       label_pixel_size =
     (case load_interpolated_csv (to_float env) table True of
        Inl e \<Rightarrow> Inl e
      | Inr (x, y, vals) \<Rightarrow>
     (case (if load_lines
            then (let line_labels = [''line_1'', ''line_2'']
                        @ (if load_parasitic_lines s then [''line_parasite''] else [])
                  in case load_lines_annotations env
                            (filter (\<lambda>l. o_name l \<in> set line_labels) (objects current_labels))
                            x y label_pixel_size 1 of
                       Inl e \<Rightarrow> Inl e
                     | Inr ls \<Rightarrow> Inr (Some ls))
            else Inr None) of
        Inl e \<Rightarrow> Inl e
      | Inr lines \<Rightarrow>
     (if lines = Some [] then Inr (st\<lparr>nb_no_label := nb_no_label st + 1\<rparr>)
      else
     (case (if load_areas
            then (case load_charge_annotations env
                         (filter (\<lambda>l. str_in ''electron'' (o_name l)) (objects current_labels))
                         x y label_pixel_size 1 of
                    Inl e \<Rightarrow> Inl e
                  | Inr areas \<Rightarrow> Inr (Some areas))
            else Inr None) of
        Inl e \<Rightarrow> Inl e
      | Inr charge_area \<Rightarrow>
     (if charge_area = Some [] then Inr (st\<lparr>nb_no_label := nb_no_label st + 1\<rparr>)
      else Inr (st\<lparr>diagrams := diagrams st @
                  [\<lparr>name = file_basename, x_axes = x, y_axes = y, values_t = vals,
                    values_norm = None, transition_lines = lines,
                    charge_areas = charge_area\<rparr>]\<rparr>))))))"

text \<open>
  \<open>white_list and not (file_basename in white_list)\<close>, where \<open>white_list\<close> is \<open>None\<close>
  for Python's \<open>None\<close>: an absent list and an empty list are both false.
\<close>

definition not_in_white_list :: "string list option \<Rightarrow> string \<Rightarrow> bool" where
  "not_in_white_list white_list file_basename =
     (case white_list of
        None \<Rightarrow> False
      | Some wl \<Rightarrow> wl \<noteq> [] \<and> file_basename \<notin> set wl)"

text \<open>
  One turn of the loop, for the grid file of base name \<open>file_basename\<close> (the \<open>stem\<close> of
  its path).
\<close>

definition load_one :: "('a::semiring_1, 'c, 'l, 'p) collaborators \<Rightarrow> settings
    \<Rightarrow> (string \<rightharpoonup> 'a label_data) \<Rightarrow> bool \<Rightarrow> bool \<Rightarrow> bool \<Rightarrow> string list option
    \<Rightarrow> ('a, 'c, 'l, 'p) load_state \<Rightarrow> string \<times> 'a list list
    \<Rightarrow> error + ('a, 'c, 'l, 'p) load_state" where
  "load_one env s labels single_dot load_lines load_areas white_list st entry =
     (let file_basename = fst entry in
      if not_in_white_list white_list file_basename
      then Inr (st\<lparr>nb_excluded := nb_excluded st + 1\<rparr>)
      else
     (case labels (file_basename @ ''.png'') of
        None \<Rightarrow> Inr (st\<lparr>nb_no_label := nb_no_label st + 1\<rparr>)
      | Some label_data \<Rightarrow>
     (case find (\<lambda>l. str_upper env (p_name l) = QDSD) (projects label_data) of
        None \<Rightarrow> Inr (st\<lparr>nb_no_label := nb_no_label st + 1\<rparr>)
      | Some project \<Rightarrow>
     (case p_labels project of
        [] \<Rightarrow> Inl IndexError
      | current_labels # _ \<Rightarrow>
     (case read_classifications env (classifications current_labels) of
        Inl e \<Rightarrow> Inl e
      | Inr None \<Rightarrow> Inr (st\<lparr>nb_no_label := nb_no_label st + 1\<rparr>)
      | Inr (Some (label_pixel_size, is_single_dot)) \<Rightarrow>
     (if single_dot \<noteq> is_single_dot then Inr (st\<lparr>nb_filtered := nb_filtered st + 1\<rparr>)
      else build_diagram env s load_lines load_areas st file_basename (snd entry)
             current_labels label_pixel_size))))))"

fun load_loop :: "('a::semiring_1, 'c, 'l, 'p) collaborators \<Rightarrow> settings
    \<Rightarrow> (string \<rightharpoonup> 'a label_data) \<Rightarrow> bool \<Rightarrow> bool \<Rightarrow> bool \<Rightarrow> string list option
    \<Rightarrow> ('a, 'c, 'l, 'p) load_state \<Rightarrow> (string \<times> 'a list list) list
    \<Rightarrow> error + ('a, 'c, 'l, 'p) load_state" where
  "load_loop env s labels single_dot load_lines load_areas white_list st [] = Inr st"
| "load_loop env s labels single_dot load_lines load_areas white_list st (entry # rest) =
     (case load_one env s labels single_dot load_lines load_areas white_list st entry of
        Inl e \<Rightarrow> Inl e
      | Inr st' \<Rightarrow> load_loop env s labels single_dot load_lines load_areas white_list st' rest)"

text \<open>
  \<open>load_diagrams\<close>.  \<open>rows\<close> are the rows of the label file; \<open>zip_dir\<close> is \<open>None\<close> when
  the folder of the pixel size and the research group is not a directory of the archive,
  and else the grid files of that folder in the order of \<open>iterdir\<close>, each with the base
  name of its path.  The function returns the list \<open>diagrams\<close>; the counters stay in the
  result here, since the claims speak of them.
\<close>

definition load_diagrams :: "('a::semiring_1, 'c, 'l, 'p) collaborators \<Rightarrow> settings
    \<Rightarrow> 'a label_data list \<Rightarrow> (string \<times> 'a list list) list option
    \<Rightarrow> bool \<Rightarrow> bool \<Rightarrow> bool \<Rightarrow> string list option
    \<Rightarrow> error + ('a, 'c, 'l, 'p) load_state" where
  "load_diagrams env s rows zip_dir single_dot load_lines load_areas white_list =
     (let labels = labels_of rows in
      case zip_dir of
        None \<Rightarrow> Inl (ValueError FolderNotFound)
      | Some entries \<Rightarrow>
          load_loop env s labels single_dot load_lines load_areas white_list
            \<lparr>diagrams = [], nb_no_label = 0, nb_excluded = 0, nb_filtered = 0\<rparr> entries)"


text \<open>
  The test \<open>single_dot != is_single_dot\<close> for a file, which the loop reaches once the
  label row, the project and both classifications of the file have been found.
\<close>

definition wrong_dot_count :: "('a, 'c, 'l, 'p) collaborators \<Rightarrow> (string \<rightharpoonup> 'a label_data)
    \<Rightarrow> bool \<Rightarrow> string \<Rightarrow> bool" where
  "wrong_dot_count env labels single_dot file_basename =
     (case labels (file_basename @ ''.png'') of
        None \<Rightarrow> False
      | Some label_data \<Rightarrow>
     (case find (\<lambda>l. str_upper env (p_name l) = QDSD) (projects label_data) of
        None \<Rightarrow> False
      | Some project \<Rightarrow>
     (case p_labels project of
        [] \<Rightarrow> False
      | current_labels # _ \<Rightarrow>
     (case read_classifications env (classifications current_labels) of
        Inr (Some (label_pixel_size, is_single_dot)) \<Rightarrow> single_dot \<noteq> is_single_dot
      | _ \<Rightarrow> False))))"

text \<open>
  The first three places where the loop counts a file as unlabelled: the label file has
  no row for it, the row has no project named QDSD, or one of the two classifications
  is missing from the first label of the project.
\<close>

definition no_label :: "('a, 'c, 'l, 'p) collaborators \<Rightarrow> (string \<rightharpoonup> 'a label_data)
    \<Rightarrow> string \<Rightarrow> bool" where
  "no_label env labels file_basename =
     (case labels (file_basename @ ''.png'') of
        None \<Rightarrow> True
      | Some label_data \<Rightarrow>
     (case find (\<lambda>l. str_upper env (p_name l) = QDSD) (projects label_data) of
        None \<Rightarrow> True
      | Some project \<Rightarrow>
     (case p_labels project of
        [] \<Rightarrow> False
      | current_labels # _ \<Rightarrow>
     (case read_classifications env (classifications current_labels) of
        Inr None \<Rightarrow> True
      | _ \<Rightarrow> False))))"

section \<open>Concrete inputs\<close>

text \<open>
  Small inputs on which the theorems below are evaluated.  Voltages and measured values
  are integers here.  A labelled area is an axis-parallel rectangle, given by its
  corners, and \<open>box_contains\<close> is shapely's \<open>contains\<close> for such a rectangle: the point
  lies strictly inside.  A line is the list of its vertices, and \<open>box_intersects\<close>
  holds when one of them lies in the closed rectangle.
\<close>

definition box_contains :: "(int \<times> int) list \<Rightarrow> int \<times> int \<Rightarrow> bool" where
  "box_contains corners point =
     (corners \<noteq> [] \<and>
      Min (set (map fst corners)) < fst point \<and> fst point < Max (set (map fst corners)) \<and>
      Min (set (map snd corners)) < snd point \<and> snd point < Max (set (map snd corners)))"

definition box_intersects :: "(int \<times> int) list \<Rightarrow> (int \<times> int) list \<Rightarrow> bool" where
  "box_intersects line corners =
     (corners \<noteq> [] \<and>
      list_ex (\<lambda>point.
        Min (set (map fst corners)) \<le> fst point \<and> fst point \<le> Max (set (map fst corners)) \<and>
        Min (set (map snd corners)) \<le> snd point \<and> snd point \<le> Max (set (map snd corners)))
       line)"

definition plain_settings :: settings where
  "plain_settings = \<lparr>use_ewma = False, load_parasitic_lines = False\<rparr>"

definition ewma_settings :: settings where
  "ewma_settings = \<lparr>use_ewma = True, load_parasitic_lines = False\<rparr>"

text \<open>A diagram of 20 by 20 pixels, every value 0, with one line through \<open>(5, 5)\<close>.\<close>

definition diagram_20 :: "(int, int, (int \<times> int) list, (int \<times> int) list) DiagramOffline" where
  "diagram_20 =
     \<lparr>name = ''d20'', x_axes = map int [0..<20], y_axes = map int [0..<20],
      values_t = \<lparr>t_rows = replicate 20 (replicate 20 0), t_cols = 20\<rparr>,
      values_norm = None, transition_lines = Some [[(5, 5), (6, 6)]], charge_areas = None\<rparr>"

text \<open>
  A diagram of 2 by 2 pixels with one labelled area, the square from \<open>(0, 0)\<close> to
  \<open>(2, 2)\<close>, and the same diagram without its areas.
\<close>

definition diagram_2 :: "(int, int, (int \<times> int) list, (int \<times> int) list) DiagramOffline" where
  "diagram_2 =
     \<lparr>name = ''d2'', x_axes = [0, 1], y_axes = [0, 1],
      values_t = \<lparr>t_rows = [[0, 0], [0, 0]], t_cols = 2\<rparr>,
      values_norm = None, transition_lines = None,
      charge_areas = Some [(REGIME ''1_electron'', [(0, 0), (2, 0), (2, 2), (0, 2)])]\<rparr>"

definition diagram_2_bare :: "(int, int, (int \<times> int) list, (int \<times> int) list) DiagramOffline" where
  "diagram_2_bare = diagram_2\<lparr>charge_areas := None\<rparr>"

text \<open>
  A diagram of 2 by 2 pixels with three labelled areas: the first one away from the
  point \<open>(1, 1)\<close>, the other two around it.
\<close>

definition diagram_areas :: "(int, int, (int \<times> int) list, (int \<times> int) list) DiagramOffline" where
  "diagram_areas =
     \<lparr>name = ''d3'', x_axes = [0, 1], y_axes = [0, 1],
      values_t = \<lparr>t_rows = [[0, 0], [0, 0]], t_cols = 2\<rparr>,
      values_norm = None, transition_lines = None,
      charge_areas = Some [(REGIME ''0_electron'', [(5, 5), (7, 5), (7, 7), (5, 7)]),
                           (REGIME ''1_electron'', [(0, 0), (2, 0), (2, 2), (0, 2)]),
                           (REGIME ''2_electrons'', [(0, 0), (3, 0), (3, 3), (0, 3)])]\<rparr>"

text \<open>
  Modelled from the spec: the helper \<open>_coord_to_volt\<close> is not among the sources.  The spec
  gives \<open>volt = pixel * pixel_size_volt + axis_min_volt\<close>, the formula relative to the axis
  maximum when \<open>invert\<close> is set, and a value within \<open>snap_margin_px * pixel_size_volt\<close> of
  an end of the axis clamped to that end.  It is used for the concrete inputs only.
\<close>

definition coord_to_volt_spec :: "int list \<Rightarrow> int \<Rightarrow> int \<Rightarrow> int \<Rightarrow> int \<Rightarrow> bool \<Rightarrow> int list" where
  "coord_to_volt_spec coords axis_min axis_max pixel_size snap invert =
     map (\<lambda>p. let v = (if invert then axis_max - p * pixel_size else p * pixel_size + axis_min)
              in if \<bar>v - axis_min\<bar> \<le> snap * pixel_size then axis_min
                 else if \<bar>v - axis_max\<bar> \<le> snap * pixel_size then axis_max
                 else v) coords"

text \<open>
  Collaborators for the concrete inputs: \<open>float\<close> reads the string \<open>1\<close>, the shapely
  constructors keep the points and refuse one or two points, and the regimes are the
  names that contain \<open>electron\<close>, besides \<open>unknown\<close>.

  \<open>example_upper\<close> is \<open>str.upper\<close> on the ASCII letters, the long s (383, which becomes
  \<open>S\<close>) and the sharp s (223, which becomes \<open>SS\<close>), and leaves every other code point as
  it is.  The letters \<open>Q\<close>, \<open>D\<close>, \<open>S\<close>, \<open>q\<close>, \<open>d\<close>, \<open>s\<close> and these two are the only
  code points whose upper case is made of the letters \<open>Q\<close>, \<open>D\<close> and \<open>S\<close>, so that
  \<open>example_upper\<close> gives \<open>QDSD\<close> exactly for the names for which \<open>str.upper\<close> does.
\<close>

definition example_upper :: "nat list \<Rightarrow> nat list" where
  "example_upper str =
     concat (map (\<lambda>c. if 97 \<le> c \<and> c \<le> 122 then [c - 32]
                       else if c = 383 then [83]
                       else if c = 223 then [83, 83]
                       else [c]) str)"

definition example_env :: "(int, int, (int \<times> int) list, (int \<times> int) list) collaborators" where
  "example_env =
     \<lparr>float_of = (\<lambda>str. if str = ''1'' then Some 1 else None),
      str_upper = example_upper,
      to_float = single_of_int,
      coord_to_volt = coord_to_volt_spec,
      line_string = (\<lambda>pts. if length pts < 2 then None else Some pts),
      polygon_of = (\<lambda>pts. if length pts = 1 \<or> length pts = 2 then None else Some pts),
      regime_of = (\<lambda>str. if str = ''unknown'' then Some UNKNOWN
                          else if str_in ''electron'' str then Some (REGIME str) else None)\<rparr>"

definition area_1 :: "int label_object" where
  "area_1 = \<lparr>o_name = ''1_electron'', o_line = None,
             o_polygon = Some [(0, 0), (10, 0), (10, 10), (0, 10)]\<rparr>"

definition area_2 :: "int label_object" where
  "area_2 = \<lparr>o_name = ''2_electrons'', o_line = None,
             o_polygon = Some [(0, 0), (20, 0), (20, 20), (0, 20)]\<rparr>"

definition line_1 :: "int label_object" where
  "line_1 = \<lparr>o_name = ''line_1'', o_line = Some [(0, 0), (10, 10)], o_polygon = None\<rparr>"

definition pixel_size_1 :: classification where
  "pixel_size_1 = \<lparr>c_name = ''pixel_size_volt'', text_answer = Some ''1'', radio_answer = None\<rparr>"

definition single_dot_answer :: classification where
  "single_dot_answer = \<lparr>c_name = ''nb_dot'', text_answer = None, radio_answer = Some ''single''\<rparr>"

definition double_dot_answer :: classification where
  "double_dot_answer = \<lparr>c_name = ''nb_dot'', text_answer = None, radio_answer = Some ''double''\<rparr>"


text \<open>
  Rows of a label file: a complete one; one whose project, named \<open>qd\<close>, long s, \<open>d\<close>,
  lacks the classification \<open>pixel_size_volt\<close>; one of a double dot; one whose
  project has an empty list of labels; and one whose pixel size is not a number.
\<close>

definition row_a :: "int label_data" where
  "row_a = \<lparr>external_id = ''a.png'',
            projects = [\<lparr>p_name = map of_char ''QDSD'',
                         p_labels = [\<lparr>classifications = [pixel_size_1, single_dot_answer],
                                      objects = [line_1, area_1, area_2]\<rparr>]\<rparr>]\<rparr>"

definition row_b :: "int label_data" where
  "row_b = \<lparr>external_id = ''b.png'',
            projects = [\<lparr>p_name = [113, 100, 383, 100],
                         p_labels = [\<lparr>classifications = [single_dot_answer],
                                      objects = [line_1, area_1, area_2]\<rparr>]\<rparr>]\<rparr>"

definition row_c :: "int label_data" where
  "row_c = \<lparr>external_id = ''c.png'',
            projects = [\<lparr>p_name = map of_char ''QDSD'',
                         p_labels = [\<lparr>classifications = [pixel_size_1, double_dot_answer],
                                      objects = [line_1, area_1, area_2]\<rparr>]\<rparr>]\<rparr>"



text \<open>
  A grid file: the first line holds \<open>x_start = 0\<close>, \<open>y_start = 0\<close> and \<open>step = 1\<close>, the
  two other lines the values.  The archive folder holds it four times, the last time
  under a name that has no label row.
\<close>

definition grid_file :: "int list list" where
  "grid_file = [[0, 0, 1], [1, 2, 3], [4, 5, 6]]"

definition archive_folder :: "(string \<times> int list list) list" where
  "archive_folder = [(''a'', grid_file), (''b'', grid_file), (''c'', grid_file), (''z'', grid_file)]"

text \<open>The diagram that the loader builds from the grid file and the labels of \<open>row_a\<close>.\<close>

definition diagram_a :: "(int, int, (int \<times> int) list, (int \<times> int) list) DiagramOffline" where
  "diagram_a =
     \<lparr>name = ''a'', x_axes = [0, 1, 2], y_axes = [0, 1],
      values_t = \<lparr>t_rows = [[4, 5, 6], [1, 2, 3]], t_cols = 3\<rparr>,
      values_norm = None, transition_lines = Some [[(0, 0), (10, - 9)]],
      charge_areas = Some [(REGIME ''1_electron'', [(0, 0), (10, 0), (10, - 9), (0, - 9)]),
                           (REGIME ''2_electrons'', [(0, 0), (20, 0), (20, - 19), (0, - 19)])]\<rparr>"

section \<open>Properties of \<open>get_charge\<close>\<close>

lemma py_index_in_range:
  "0 \<le> i \<Longrightarrow> i < int (length xs) \<Longrightarrow> py_index xs i = Inr (xs ! nat i)"
  by (simp add: py_index_def)

lemma py_index_wraps:
  "- int (length xs) \<le> i \<Longrightarrow> i < 0 \<Longrightarrow> py_index xs i = Inr (xs ! nat (int (length xs) + i))"
  by (simp add: py_index_def)

lemma py_index_outside:
  "i < - int (length xs) \<or> int (length xs) \<le> i \<Longrightarrow> py_index xs i = Inl IndexError"
  by (auto simp: py_index_def)

text \<open>
  C10.  When \<open>charge_areas\<close> is \<open>None\<close>, a call of \<open>get_charge\<close> with coordinates inside
  the diagram does not return \<open>UNKNOWN\<close>: both axis lookups succeed and the loop over the
  areas raises \<open>TypeError\<close>.
\<close>

theorem get_charge_without_areas_raises:
  assumes "charge_areas d = None"
    and "0 \<le> coord_x" and "coord_x < int (length (x_axes d))"
    and "0 \<le> coord_y" and "coord_y < int (length (y_axes d))"
  shows "get_charge contains d coord_x coord_y = Inl TypeError"
  using assms by (simp add: get_charge_def py_index_in_range)

theorem get_charge_without_areas_raises_witness:
  "charge_areas diagram_2_bare = None \<and> (0::int) \<le> 1 \<and> 1 < int (length (x_axes diagram_2_bare))
   \<and> 1 < int (length (y_axes diagram_2_bare))
   \<and> get_charge box_contains diagram_2_bare 1 1 = Inl TypeError"
proof -
  have a: "charge_areas diagram_2_bare = None"
    by (simp add: diagram_2_bare_def)
  have x: "(1::int) < int (length (x_axes diagram_2_bare))"
    by (simp add: diagram_2_bare_def diagram_2_def)
  have y: "(1::int) < int (length (y_axes diagram_2_bare))"
    by (simp add: diagram_2_bare_def diagram_2_def)
  from get_charge_without_areas_raises [OF a _ x _ y, of box_contains] a x y
  show ?thesis by simp
qed

text \<open>
  C2.  The coordinates \<open>(-1, -1)\<close> are outside the diagram of 2 by 2 pixels, yet
  \<open>get_charge\<close> does not return \<open>UNKNOWN\<close> there: the index \<open>-1\<close> reads the last value of
  each axis, the point \<open>(1, 1)\<close>, which lies in the labelled area.
\<close>

theorem get_charge_negative_coordinates:
  "get_charge box_contains diagram_2 (- 1) (- 1) = Inr (REGIME ''1_electron'')"
  by (simp add: get_charge_def py_index_def diagram_2_def box_contains_def)


section \<open>Properties of \<open>get_patches\<close>\<close>

lemma patches_x_length:
  "patches_x isect s d psx ox sy ey syv eyv xs = (items, ending) \<Longrightarrow>
   length items \<le> length xs \<and> (ending = None \<longrightarrow> length items = length xs)"
proof (induction xs arbitrary: items ending)
  case Nil
  then show ?case by simp
next
  case (Cons x xs)
  obtain its en where r: "patches_x isect s d psx ox sy ey syv eyv xs = (its, en)"
    by (cases "patches_x isect s d psx ox sy ey syv eyv xs")
  from Cons.IH [OF r] Cons.prems r show ?case
    by (auto simp: Let_def split: sum.splits)
qed

lemma patches_x_nth:
  "patches_x isect s d psx ox sy ey syv eyv xs = (items, ending) \<Longrightarrow> i < length items \<Longrightarrow>
   \<exists>sxv exv. py_index (x_axes d) (xs ! i + ox + (if use_ewma s then 3 else 0)) = Inr sxv
     \<and> py_index (x_axes d) (xs ! i + psx - ox) = Inr exv
     \<and> fst (items ! i) = tslice (values_t d) sy ey (xs ! i) (xs ! i + psx)
     \<and> any_line isect (transition_lines d) (patch_shape sxv exv syv eyv) = Inr (snd (items ! i))"
proof (induction xs arbitrary: items ending i)
  case Nil
  then show ?case by simp
next
  case (Cons x xs)
  obtain its en where r: "patches_x isect s d psx ox sy ey syv eyv xs = (its, en)"
    by (cases "patches_x isect s d psx ox sy ey syv eyv xs")
  show ?case
  proof (cases i)
    case 0
    with Cons.prems r show ?thesis
      by (auto simp: Let_def split: sum.splits)
  next
    case (Suc j)
    with Cons.prems r have "j < length its" and "items ! i = its ! j"
      by (auto simp: Let_def split: sum.splits)
    with Cons.IH [OF r, of j] Suc show ?thesis by simp
  qed
qed


lemma origins_Cons: "origins xs (y # ys) = map (\<lambda>x. (x, y)) xs @ origins xs ys"
  by (simp add: origins_def)

lemma patches_y_length:
  "py_range (W - psx) (psx - ovx) = Inr xs \<Longrightarrow>
   patches_y isect s d psx psy ovx ox oy W ys = (items, ending) \<Longrightarrow>
   length items \<le> length (origins xs ys) \<and> (ending = None \<longrightarrow> length items = length (origins xs ys))"
proof (induction ys arbitrary: items ending)
  case Nil
  then show ?case by (simp add: origins_def)
next
  case (Cons y ys)
  obtain its en where r: "patches_y isect s d psx psy ovx ox oy W ys = (its, en)"
    by (cases "patches_y isect s d psx psy ovx ox oy W ys")
  obtain row en' where x: "patches_x isect s d psx ox y (y + psy)
      (projr (py_index (y_axes d) (y + oy))) (projr (py_index (y_axes d) (y + psy - oy))) xs = (row, en')"
    by (cases "patches_x isect s d psx ox y (y + psy)
      (projr (py_index (y_axes d) (y + oy))) (projr (py_index (y_axes d) (y + psy - oy))) xs")
  from Cons.IH [OF Cons.prems(1) r] patches_x_length [OF x] Cons.prems r x show ?case
    by (auto simp: Let_def origins_Cons split: sum.splits option.splits)
qed

lemma patches_y_nth:
  "py_range (W - psx) (psx - ovx) = Inr xs \<Longrightarrow>
   patches_y isect s d psx psy ovx ox oy W ys = (items, ending) \<Longrightarrow> i < length items \<Longrightarrow>
   \<exists>x y. origins xs ys ! i = (x, y)
     \<and> fst (items ! i) = tslice (values_t d) y (y + psy) x (x + psx)
     \<and> is_line_in_patch isect d (x + (if use_ewma s then 3 else 0), y)
          (psx - (if use_ewma s then 3 else 0), psy) (ox, oy) = Inr (snd (items ! i))"
proof (induction ys arbitrary: items ending i)
  case Nil
  then show ?case by simp
next
  case (Cons y ys)
  obtain its en where r: "patches_y isect s d psx psy ovx ox oy W ys = (its, en)"
    by (cases "patches_y isect s d psx psy ovx ox oy W ys")
  from Cons.prems obtain syv eyv where
    sy: "py_index (y_axes d) (y + oy) = Inr syv" and ey: "py_index (y_axes d) (y + psy - oy) = Inr eyv"
    by (auto simp: Let_def split: sum.splits)
  obtain row en' where x: "patches_x isect s d psx ox y (y + psy) syv eyv xs = (row, en')"
    by (cases "patches_x isect s d psx ox y (y + psy) syv eyv xs")
  note len = patches_x_length [OF x]
  show ?case
  proof (cases "i < length row")
    case True
    from Cons.prems r x sy ey True have it: "items ! i = row ! i"
      by (auto simp: Let_def nth_append split: option.splits)
    from len True have ixs: "i < length xs" by simp
    from patches_x_nth [OF x True] obtain sxv exv where
      a: "py_index (x_axes d) (xs ! i + ox + (if use_ewma s then 3 else 0)) = Inr sxv"
      and b: "py_index (x_axes d) (xs ! i + psx - ox) = Inr exv"
      and c: "fst (row ! i) = tslice (values_t d) y (y + psy) (xs ! i) (xs ! i + psx)"
      and e: "any_line isect (transition_lines d) (patch_shape sxv exv syv eyv) = Inr (snd (row ! i))"
      by blast
    have o: "origins xs (y # ys) ! i = (xs ! i, y)"
      using ixs by (simp add: origins_Cons nth_append)
    have a': "py_index (x_axes d) (xs ! i + (if use_ewma s then 3 else 0) + ox) = Inr sxv"
    proof -
      have "xs ! i + (if use_ewma s then 3 else 0) + ox = xs ! i + ox + (if use_ewma s then 3 else 0)"
        by simp
      with a show ?thesis by (simp only:)
    qed
    have b': "py_index (x_axes d) (xs ! i + (if use_ewma s then 3 else 0)
        + (psx - (if use_ewma s then 3 else 0)) - ox) = Inr exv"
    proof -
      have "xs ! i + (if use_ewma s then 3 else 0) + (psx - (if use_ewma s then 3 else 0)) - ox
          = xs ! i + psx - ox"
        by simp
      with b show ?thesis by (simp only:)
    qed
    show ?thesis
      using o it c e sy ey a' b' by simp
  next
    case False
    with Cons.prems r x sy ey have en': "en' = None"
      by (auto simp: Let_def split: option.splits)
    with len have lr: "length row = length xs" by simp
    from Cons.prems r x sy ey en' have items: "items = row @ its"
      by (auto simp: Let_def)
    with False Cons.prems(3) have j: "i - length row < length its" by simp
    from Cons.IH [OF Cons.prems(1) r j] False items lr show ?thesis
      by (simp add: origins_Cons nth_append)
  qed
qed

lemma patches_y_no_columns:
  "py_range (W - psx) (psx - ovx) = Inl e \<Longrightarrow>
   fst (patches_y isect s d psx psy ovx ox oy W ys) = []"
  by (cases ys) (auto simp: Let_def split: sum.splits)

lemma get_patches_nth:
  assumes g: "get_patches isect s d (psx0, psy) (ovx, ovy) (ox, oy) = (items, ending)"
    and i: "i < length items"
  shows "\<exists>x y. i < length (window_origins s d (psx0, psy) (ovx, ovy))
     \<and> window_origins s d (psx0, psy) (ovx, ovy) ! i = (x, y)
     \<and> fst (items ! i) = tslice (values_t d) y (y + psy) x
          (x + (psx0 + (if use_ewma s then 3 else 0)))
     \<and> is_line_in_patch isect d (x + (if use_ewma s then 3 else 0), y) (psx0, psy) (ox, oy)
          = Inr (snd (items ! i))"
proof -
  define psx where "psx = (if use_ewma s then psx0 + 3 else psx0)"
  define H where "H = int (fst (shape (values_t d)))"
  define W where "W = int (snd (shape (values_t d)))"
  have psx: "psx = psx0 + (if use_ewma s then 3 else 0)" "psx - (if use_ewma s then 3 else 0) = psx0"
    by (simp_all add: psx_def)
  from g i obtain ys where ys: "py_range (H - psy) (psy - ovy) = Inr ys"
    and p: "patches_y isect s d psx psy ovx ox oy W ys = (items, ending)"
    by (auto simp: Let_def psx_def H_def W_def split: sum.splits)
  show ?thesis
  proof (cases "py_range (W - psx) (psx - ovx)")
    case (Inl e)
    from patches_y_no_columns [OF Inl, of isect s d psy ox oy ys] p i show ?thesis by simp
  next
    case (Inr xs)
    have w: "window_origins s d (psx0, psy) (ovx, ovy) = origins xs ys"
      using ys Inr by (cases "use_ewma s") (simp_all add: window_origins_def Let_def psx_def H_def W_def)
    from patches_y_length [OF Inr p] i have "i < length (origins xs ys)" by simp
    with patches_y_nth [OF Inr p i] w psx show ?thesis by auto
  qed
qed



lemma le_div_pos_int:
  fixes step :: int
  assumes "0 < step"
  shows "k \<le> a div step \<longleftrightarrow> k * step \<le> a"
proof
  assume "k \<le> a div step"
  then have "k * step \<le> (a div step) * step"
    using assms by (simp add: mult_right_mono)
  also have "\<dots> \<le> a"
    using assms by (metis add_increasing2 div_mult_mod_eq order_refl pos_mod_sign)
  finally show "k * step \<le> a" .
next
  assume "k * step \<le> a"
  then have "(k * step) div step \<le> a div step"
    using assms by (rule zdiv_mono1)
  then show "k \<le> a div step" using assms by simp
qed

lemma range_len_pos:
  assumes "0 < step"
  shows "k < range_len stop step \<longleftrightarrow> int k * step < stop"
proof (cases "0 < stop")
  case False
  have "0 \<le> int k * step" using assms by simp
  with False have "\<not> int k * step < stop" by linarith
  with False assms show ?thesis by (simp add: range_len_def)
next
  case True
  have "k < nat ((stop - 1) div step + 1) \<longleftrightarrow> int k \<le> (stop - 1) div step"
    using True assms by linarith
  also have "\<dots> \<longleftrightarrow> int k * step \<le> stop - 1"
    using assms by (rule le_div_pos_int)
  finally show ?thesis using True assms by (simp add: range_len_def)
qed

lemma py_range_members:
  assumes "0 < step" and "py_range stop step = Inr xs"
  shows "x \<in> set xs \<longleftrightarrow> (\<exists>k. x = int k * step \<and> x < stop)"
  using assms by (auto simp: py_range_def range_len_pos)

lemma set_origins: "set (origins xs ys) = set xs \<times> set ys"
  by (auto simp: origins_def)

lemma py_slice_split:
  assumes "0 \<le> a" and "a \<le> b" and "b \<le> c"
  shows "py_slice a c r = py_slice a b r @ py_slice b c r"
proof -
  define A where "A = slice_bound (length r) a"
  define B where "B = slice_bound (length r) b"
  define C where "C = slice_bound (length r) c"
  have le: "A \<le> B" "B \<le> C"
    using assms by (auto simp: A_def B_def C_def slice_bound_def)
  then have "C - A = (B - A) + (C - B)" by simp
  then have "take (C - A) (drop A r) = take (B - A) (drop A r) @ take (C - B) (drop (B - A) (drop A r))"
    by (simp only: take_add)
  moreover have "drop (B - A) (drop A r) = drop B r" using le by simp
  ultimately show ?thesis by (simp add: py_slice_def Let_def A_def B_def C_def)
qed

lemma map2_append_rows:
  "map2 (@) (map f rows) (map g rows) = map (\<lambda>r. f r @ g r) rows"
  by (induction rows) simp_all

lemma tslice_split_columns:
  assumes "0 \<le> a" and "a \<le> b" and "b \<le> c"
  shows "t_rows (tslice t y0 y1 a c) = map2 (@) (t_rows (tslice t y0 y1 a b)) (t_rows (tslice t y0 y1 b c))"
  by (simp add: tslice_def map2_append_rows py_slice_split [OF assms])

lemma tslice_cols_inside:
  assumes "0 \<le> a" and "a \<le> c" and "c \<le> int (t_cols t)"
  shows "t_cols (tslice t y0 y1 a c) = nat (c - a)"
  using assms by (auto simp: tslice_def slice_bound_def)


text \<open>
  C5.  With the EWMA setting disabled, the label of every window that \<open>get_patches\<close>
  yields is the result of \<open>is_line_in_patch\<close> at the top-left corner of that window, with
  the same patch size and the label offset as offsets; the window is the slice of the
  values that starts at this corner.  (The items are matched to the corners in the order
  of the two loops.  With the list of lines absent nothing is yielded.)
\<close>

theorem get_patches_label_is_line_in_patch:
  assumes "\<not> use_ewma s"
    and "get_patches isect s d patch_size overlap label_offset = (items, ending)"
    and "i < length items"
  shows "i < length (window_origins s d patch_size overlap)
     \<and> is_line_in_patch isect d (window_origins s d patch_size overlap ! i) patch_size label_offset
          = Inr (snd (items ! i))
     \<and> fst (items ! i) =
         tslice (values_t d)
           (snd (window_origins s d patch_size overlap ! i))
           (snd (window_origins s d patch_size overlap ! i) + snd patch_size)
           (fst (window_origins s d patch_size overlap ! i))
           (fst (window_origins s d patch_size overlap ! i) + fst patch_size)"
proof -
  obtain psx psy where ps: "patch_size = (psx, psy)" by (cases patch_size)
  obtain ovx ovy where ov: "overlap = (ovx, ovy)" by (cases overlap)
  obtain ox oy where off: "label_offset = (ox, oy)" by (cases label_offset)
  from get_patches_nth [OF assms(2) [unfolded ps ov off] assms(3)] assms(1)
  show ?thesis unfolding ps ov off by auto
qed

theorem get_patches_label_is_line_in_patch_witness:
  "\<not> use_ewma plain_settings
   \<and> 4 < length (fst (get_patches box_intersects plain_settings diagram_20 (5, 5) (0, 0) (0, 0)))
   \<and> window_origins plain_settings diagram_20 (5, 5) (0, 0) ! 4 = (5, 5)
   \<and> snd (fst (get_patches box_intersects plain_settings diagram_20 (5, 5) (0, 0) (0, 0)) ! 4)
   \<and> is_line_in_patch box_intersects diagram_20 (5, 5) (5, 5) (0, 0) = Inr True"
proof -
  let ?g = "get_patches box_intersects plain_settings diagram_20 (5, 5) (0, 0) (0, 0)"
  have h1: "\<not> use_ewma plain_settings" by (simp add: plain_settings_def)
  have h2: "?g = (fst ?g, snd ?g)" by simp
  have h3: "4 < length (fst ?g)" by code_simp
  have o: "window_origins plain_settings diagram_20 (5, 5) (0, 0) ! 4 = (5, 5)" by code_simp
  have l: "snd (fst ?g ! 4)" by code_simp
  from get_patches_label_is_line_in_patch [OF h1 h2 h3] h1 h3 o l show ?thesis by simp
qed


lemma py_slice_take_drop:
  assumes "0 \<le> lo" and "0 \<le> n"
  shows "py_slice lo (lo + n) xs = take (nat n) (drop (nat lo) xs)"
proof -
  from assms have h: "nat (lo + n) = nat lo + nat n" by (simp add: nat_add_distrib)
  show ?thesis
  proof (cases "nat lo \<le> length xs")
    case le: True
    then have "min (nat lo + nat n) (length xs) - nat lo = min (nat n) (length xs - nat lo)"
      by (auto simp: min_def)
    moreover have "take (min (nat n) (length xs - nat lo)) (drop (nat lo) xs)
        = take (nat n) (drop (nat lo) xs)"
      by (simp add: min_def)
    ultimately show ?thesis
      using assms le h by (simp add: py_slice_def slice_bound_def Let_def min_absorb1)
  next
    case False
    with assms h show ?thesis
      by (simp add: py_slice_def slice_bound_def Let_def)
  qed
qed

lemma tslice_rows_explicit:
  assumes "0 \<le> x" and "0 \<le> y" and "0 \<le> w" and "0 \<le> h"
  shows "t_rows (tslice t y (y + h) x (x + w))
     = map (\<lambda>row. take (nat w) (drop (nat x) row)) (take (nat h) (drop (nat y) (t_rows t)))"
  using assms by (simp add: tslice_def py_slice_take_drop)

lemma take_three_more:
  assumes "0 \<le> w"
  shows "take (nat (w + 3)) (drop n row) = take 3 (drop n row) @ take (nat w) (drop (n + 3) row)"
proof -
  from assms have n: "nat (w + 3) = 3 + nat w" by simp
  have "take (3 + nat w) (drop n row)
      = take 3 (drop n row) @ take (nat w) (drop 3 (drop n row))"
    by (rule take_add)
  moreover have "drop 3 (drop n row) = drop (n + 3) row"
    by (simp add: add.commute)
  ultimately show ?thesis by (simp only: n)
qed

lemma py_index_value:
  assumes "py_index xs i = Inr v" and "0 \<le> i"
  shows "v = xs ! nat i \<and> nat i < length xs"
  using assms by (auto simp: py_index_def Let_def split: if_splits)





text \<open>
  The corners of \<open>window_origins\<close>: the multiples of the two steps for which the window,
  three columns wider under the EWMA setting, ends before the last column and the last
  row; they come row by row, each row from left to right.
\<close>

lemma window_origins_ranges:
  assumes "ovx < psx + (if use_ewma s then 3 else 0)" and "ovy < psy"
  shows "\<exists>xs ys. py_range (int (snd (shape (values_t d))) - (psx + (if use_ewma s then 3 else 0)))
          (psx + (if use_ewma s then 3 else 0) - ovx) = Inr xs
     \<and> py_range (int (fst (shape (values_t d))) - psy) (psy - ovy) = Inr ys
     \<and> window_origins s d (psx, psy) (ovx, ovy) = origins xs ys"
  using assms by (cases "use_ewma s") (simp_all add: py_range_def window_origins_def Let_def)

lemma window_origins_corners:
  assumes "ovx < psx + (if use_ewma s then 3 else 0)" and "ovy < psy"
  shows "(x, y) \<in> set (window_origins s d (psx, psy) (ovx, ovy)) \<longleftrightarrow>
     (\<exists>j k. x = int j * (psx + (if use_ewma s then 3 else 0) - ovx) \<and> y = int k * (psy - ovy)
        \<and> x + (psx + (if use_ewma s then 3 else 0)) < int (snd (shape (values_t d)))
        \<and> y + psy < int (fst (shape (values_t d))))"
proof -
  define H where "H = int (fst (shape (values_t d)))"
  define W where "W = int (snd (shape (values_t d)))"
  define px where "px = psx + (if use_ewma s then 3 else 0)"
  from assms have px: "0 < px - ovx" and py: "0 < psy - ovy" by (simp_all add: px_def)
  from window_origins_ranges [OF assms, of d]
  obtain xs ys where xs: "py_range (W - px) (px - ovx) = Inr xs"
    and ys: "py_range (H - psy) (psy - ovy) = Inr ys"
    and w: "window_origins s d (psx, psy) (ovx, ovy) = origins xs ys"
    unfolding H_def W_def px_def by blast
  have "(x, y) \<in> set (window_origins s d (psx, psy) (ovx, ovy)) \<longleftrightarrow> x \<in> set xs \<and> y \<in> set ys"
    by (simp add: w set_origins)
  also have "\<dots> \<longleftrightarrow> (\<exists>j. x = int j * (px - ovx) \<and> x < W - px)
      \<and> (\<exists>k. y = int k * (psy - ovy) \<and> y < H - psy)"
    by (simp only: py_range_members [OF px xs] py_range_members [OF py ys])
  also have "\<dots> \<longleftrightarrow> (\<exists>j k. x = int j * (px - ovx) \<and> y = int k * (psy - ovy)
      \<and> x + px < W \<and> y + psy < H)"
    by auto
  finally show ?thesis by (simp only: H_def W_def px_def)
qed


lemma window_origins_inside:
  assumes "ovx < psx + (if use_ewma s then 3 else 0)" and "ovy < psy"
    and "i < length (window_origins s d (psx, psy) (ovx, ovy))"
    and "window_origins s d (psx, psy) (ovx, ovy) ! i = (x, y)"
  shows "0 \<le> x \<and> 0 \<le> y
     \<and> x + (psx + (if use_ewma s then 3 else 0)) < int (snd (shape (values_t d)))
     \<and> y + psy < int (fst (shape (values_t d)))"
proof -
  from assms(3,4) have "(x, y) \<in> set (window_origins s d (psx, psy) (ovx, ovy))"
    by (metis nth_mem)
  with window_origins_corners [OF assms(1,2), of x y d]
  obtain j k where "x = int j * (psx + (if use_ewma s then 3 else 0) - ovx)"
    and "y = int k * (psy - ovy)"
    and b: "x + (psx + (if use_ewma s then 3 else 0)) < int (snd (shape (values_t d)))"
      "y + psy < int (fst (shape (values_t d)))"
    by blast
  with assms(1,2) have "0 \<le> x" "0 \<le> y" by simp_all
  with b show ?thesis by simp
qed





lemma get_patches_rectangle:
  assumes g: "get_patches isect s d (psx, psy) (ovx, ovy) (ox, oy) = (items, ending)"
    and i: "i < length items"
    and o: "window_origins s d (psx, psy) (ovx, ovy) ! i = (x, y)"
  shows "\<exists>sxv exv syv eyv ls.
       py_index (x_axes d) (x + (if use_ewma s then 3 else 0) + ox) = Inr sxv
     \<and> py_index (x_axes d) (x + (if use_ewma s then 3 else 0) + psx - ox) = Inr exv
     \<and> py_index (y_axes d) (y + oy) = Inr syv
     \<and> py_index (y_axes d) (y + psy - oy) = Inr eyv
     \<and> transition_lines d = Some ls
     \<and> snd (items ! i)
         = list_ex (\<lambda>line. isect line [(sxv, syv), (exv, syv), (exv, eyv), (sxv, eyv)]) ls"
proof -
  from get_patches_nth [OF g i] o
  have l: "is_line_in_patch isect d (x + (if use_ewma s then 3 else 0), y) (psx, psy) (ox, oy)
      = Inr (snd (items ! i))"
    by auto
  then show ?thesis
    by (auto simp: any_line_def patch_shape_def split: sum.splits option.splits)
qed




text \<open>
  C3.  With the EWMA setting enabled, every window that \<open>get_patches\<close> yields at a corner
  \<open>(x, y)\<close> is the slice of the rows from \<open>y\<close> to \<open>y + patch_size_y\<close> and of the columns
  from \<open>x\<close> to \<open>x + patch_size_x + 3\<close>.  Its label is the result of \<open>is_line_in_patch\<close>
  for the window of the requested size whose corner is \<open>(x + 3, y)\<close>: it tells whether a
  line intersects the rectangle with the corners \<open>(sxv, syv)\<close>, \<open>(exv, syv)\<close>,
  \<open>(exv, eyv)\<close>, \<open>(sxv, eyv)\<close>, where \<open>sxv\<close> and \<open>exv\<close> are the values of the x axis at
  \<open>x + 3 + label_offset_x\<close> and \<open>x + 3 + patch_size_x - label_offset_x\<close>, and \<open>syv\<close> and
  \<open>eyv\<close> the values of the y axis at \<open>y + label_offset_y\<close> and
  \<open>y + patch_size_y - label_offset_y\<close>.  For a patch size that is not negative and an
  overlap below the enlarged size, the slice has exactly \<open>patch_size_x + 3\<close> columns:
  in every row the three values from column \<open>x\<close> on, followed by the \<open>patch_size_x\<close>
  values from column \<open>x + 3\<close> on, which are the columns of the window that is labelled.
\<close>

theorem get_patches_ewma_window:
  assumes "use_ewma s"
    and "get_patches isect s d (patch_size_x, patch_size_y) overlap (label_offset_x, label_offset_y)
           = (items, ending)"
    and "i < length items"
  shows "\<exists>x y. i < length (window_origins s d (patch_size_x, patch_size_y) overlap)
     \<and> window_origins s d (patch_size_x, patch_size_y) overlap ! i = (x, y)
     \<and> fst (items ! i) = tslice (values_t d) y (y + patch_size_y) x (x + patch_size_x + 3)
     \<and> is_line_in_patch isect d (x + 3, y) (patch_size_x, patch_size_y)
          (label_offset_x, label_offset_y) = Inr (snd (items ! i))
     \<and> (\<exists>sxv exv syv eyv ls.
           py_index (x_axes d) (x + 3 + label_offset_x) = Inr sxv
         \<and> py_index (x_axes d) (x + 3 + patch_size_x - label_offset_x) = Inr exv
         \<and> py_index (y_axes d) (y + label_offset_y) = Inr syv
         \<and> py_index (y_axes d) (y + patch_size_y - label_offset_y) = Inr eyv
         \<and> transition_lines d = Some ls
         \<and> snd (items ! i)
             = list_ex (\<lambda>line. isect line [(sxv, syv), (exv, syv), (exv, eyv), (sxv, eyv)]) ls
         \<and> (fst overlap < patch_size_x + 3 \<and> snd overlap < patch_size_y
              \<and> 0 \<le> label_offset_x \<and> label_offset_x \<le> patch_size_x
              \<and> 0 \<le> label_offset_y \<and> label_offset_y \<le> patch_size_y \<longrightarrow>
              sxv = x_axes d ! nat (x + 3 + label_offset_x)
            \<and> exv = x_axes d ! nat (x + 3 + patch_size_x - label_offset_x)
            \<and> syv = y_axes d ! nat (y + label_offset_y)
            \<and> eyv = y_axes d ! nat (y + patch_size_y - label_offset_y)))
     \<and> (0 \<le> patch_size_x \<and> fst overlap < patch_size_x + 3 \<longrightarrow>
          t_cols (fst (items ! i)) = nat patch_size_x + 3
          \<and> t_rows (fst (items ! i)) =
              map2 (@) (t_rows (tslice (values_t d) y (y + patch_size_y) x (x + 3)))
                (t_rows (tslice (values_t d) y (y + patch_size_y) (x + 3) (x + 3 + patch_size_x))))
     \<and> (0 \<le> patch_size_x \<and> 0 \<le> patch_size_y
          \<and> fst overlap < patch_size_x + 3 \<and> snd overlap < patch_size_y \<longrightarrow>
          (\<exists>j k. x = int j * (patch_size_x + 3 - fst overlap)
               \<and> y = int k * (patch_size_y - snd overlap))
          \<and> x + patch_size_x + 3 < int (snd (shape (values_t d)))
          \<and> y + patch_size_y < int (fst (shape (values_t d)))
          \<and> t_rows (fst (items ! i)) =
              map (\<lambda>row. take 3 (drop (nat x) row) @ take (nat patch_size_x) (drop (nat x + 3) row))
                (take (nat patch_size_y) (drop (nat y) (t_rows (values_t d)))))"
proof -
  obtain ovx ovy where ov: "overlap = (ovx, ovy)" by (cases overlap)
  note g = assms(2) [unfolded ov]
  from get_patches_nth [OF g assms(3)] assms(1)
  obtain x y where len: "i < length (window_origins s d (patch_size_x, patch_size_y) (ovx, ovy))"
    and o: "window_origins s d (patch_size_x, patch_size_y) (ovx, ovy) ! i = (x, y)"
    and p: "fst (items ! i) = tslice (values_t d) y (y + patch_size_y) x (x + patch_size_x + 3)"
    and l: "is_line_in_patch isect d (x + 3, y) (patch_size_x, patch_size_y)
          (label_offset_x, label_offset_y) = Inr (snd (items ! i))"
    by (auto simp: add.assoc)
  from get_patches_rectangle [OF g assms(3) o] assms(1)
  obtain sxv exv syv eyv ls where
    sx: "py_index (x_axes d) (x + 3 + label_offset_x) = Inr sxv"
    and ex: "py_index (x_axes d) (x + 3 + patch_size_x - label_offset_x) = Inr exv"
    and sy: "py_index (y_axes d) (y + label_offset_y) = Inr syv"
    and ey: "py_index (y_axes d) (y + patch_size_y - label_offset_y) = Inr eyv"
    and ls: "transition_lines d = Some ls"
    and lab: "snd (items ! i)
       = list_ex (\<lambda>line. isect line [(sxv, syv), (exv, syv), (exv, eyv), (sxv, eyv)]) ls"
    by auto
  have inside: "0 \<le> x \<and> 0 \<le> y
       \<and> x + patch_size_x + 3 < int (snd (shape (values_t d)))
       \<and> y + patch_size_y < int (fst (shape (values_t d)))"
    if "ovx < patch_size_x + 3" and "ovy < patch_size_y"
    using window_origins_inside [of ovx patch_size_x s ovy patch_size_y i d x y]
      that assms(1) len o by (simp add: add.assoc)
  have axis: "sxv = x_axes d ! nat (x + 3 + label_offset_x)
            \<and> exv = x_axes d ! nat (x + 3 + patch_size_x - label_offset_x)
            \<and> syv = y_axes d ! nat (y + label_offset_y)
            \<and> eyv = y_axes d ! nat (y + patch_size_y - label_offset_y)"
    if h: "ovx < patch_size_x + 3 \<and> ovy < patch_size_y
              \<and> 0 \<le> label_offset_x \<and> label_offset_x \<le> patch_size_x
              \<and> 0 \<le> label_offset_y \<and> label_offset_y \<le> patch_size_y"
  proof -
    from inside h have "0 \<le> x" "0 \<le> y" by simp_all
    with h have "0 \<le> x + 3 + label_offset_x" "0 \<le> x + 3 + patch_size_x - label_offset_x"
      "0 \<le> y + label_offset_y" "0 \<le> y + patch_size_y - label_offset_y"
      by simp_all
    from py_index_value [OF sx this(1)] py_index_value [OF ex this(2)]
      py_index_value [OF sy this(3)] py_index_value [OF ey this(4)]
    show ?thesis by simp
  qed
  have w: "t_cols (fst (items ! i)) = nat patch_size_x + 3
          \<and> t_rows (fst (items ! i)) =
              map2 (@) (t_rows (tslice (values_t d) y (y + patch_size_y) x (x + 3)))
                (t_rows (tslice (values_t d) y (y + patch_size_y) (x + 3) (x + 3 + patch_size_x)))"
    if nn: "0 \<le> patch_size_x" and st: "ovx < patch_size_x + 3"
  proof -
    define W where "W = int (snd (shape (values_t d)))"
    from len o have "(x, y) \<in> set (window_origins s d (patch_size_x, patch_size_y) (ovx, ovy))"
      by (metis nth_mem)
    then have "\<exists>xs. py_range (W - (patch_size_x + 3)) (patch_size_x + 3 - ovx) = Inr xs
        \<and> x \<in> set xs"
      using assms(1)
      by (cases "py_range (W - (patch_size_x + 3)) (patch_size_x + 3 - ovx)")
         (auto simp: window_origins_def Let_def W_def set_origins split: sum.splits)
    then obtain xs where xs: "py_range (W - (patch_size_x + 3)) (patch_size_x + 3 - ovx) = Inr xs"
      and mem: "x \<in> set xs"
      by blast
    from st have pos: "0 < patch_size_x + 3 - ovx" by simp
    from py_range_members [OF pos xs, of x] mem obtain k where
      k: "x = int k * (patch_size_x + 3 - ovx)" and up: "x < W - (patch_size_x + 3)"
      by blast
    from k pos have x0: "0 \<le> x" by simp
    have W: "W = int (t_cols (values_t d))" by (simp add: W_def shape_def)
    have c: "t_cols (tslice (values_t d) y (y + patch_size_y) x (x + patch_size_x + 3))
        = nat (x + patch_size_x + 3 - x)"
      using x0 nn up W by (intro tslice_cols_inside) simp_all
    have r: "t_rows (tslice (values_t d) y (y + patch_size_y) x (x + patch_size_x + 3)) =
        map2 (@) (t_rows (tslice (values_t d) y (y + patch_size_y) x (x + 3)))
          (t_rows (tslice (values_t d) y (y + patch_size_y) (x + 3) (x + patch_size_x + 3)))"
      using x0 nn by (intro tslice_split_columns) simp_all
    have e: "x + 3 + patch_size_x = x + patch_size_x + 3" by simp
    from c r nn show ?thesis unfolding p e by (simp add: nat_add_distrib)
  qed
  have cells: "(\<exists>j k. x = int j * (patch_size_x + 3 - ovx) \<and> y = int k * (patch_size_y - ovy))
          \<and> x + patch_size_x + 3 < int (snd (shape (values_t d)))
          \<and> y + patch_size_y < int (fst (shape (values_t d)))
          \<and> t_rows (fst (items ! i)) =
              map (\<lambda>row. take 3 (drop (nat x) row) @ take (nat patch_size_x) (drop (nat x + 3) row))
                (take (nat patch_size_y) (drop (nat y) (t_rows (values_t d))))"
    if h: "0 \<le> patch_size_x \<and> 0 \<le> patch_size_y
          \<and> ovx < patch_size_x + 3 \<and> ovy < patch_size_y"
  proof -
    from inside h have x0: "0 \<le> x" and y0: "0 \<le> y"
      and bx: "x + patch_size_x + 3 < int (snd (shape (values_t d)))"
      and "by": "y + patch_size_y < int (fst (shape (values_t d)))"
      by simp_all
    from len o have "(x, y) \<in> set (window_origins s d (patch_size_x, patch_size_y) (ovx, ovy))"
      by (metis nth_mem)
    with window_origins_corners [of ovx patch_size_x s ovy patch_size_y x y d] h assms(1)
    have jk: "\<exists>j k. x = int j * (patch_size_x + 3 - ovx) \<and> y = int k * (patch_size_y - ovy)"
      by auto
    have "x + patch_size_x + 3 = x + (patch_size_x + 3)" by simp
    with p have "t_rows (fst (items ! i))
        = t_rows (tslice (values_t d) y (y + patch_size_y) x (x + (patch_size_x + 3)))"
      by (simp only:)
    also have "\<dots> = map (\<lambda>row. take (nat (patch_size_x + 3)) (drop (nat x) row))
        (take (nat patch_size_y) (drop (nat y) (t_rows (values_t d))))"
      using x0 y0 h by (intro tslice_rows_explicit) simp_all
    also have "\<dots> = map (\<lambda>row. take 3 (drop (nat x) row)
          @ take (nat patch_size_x) (drop (nat x + 3) row))
        (take (nat patch_size_y) (drop (nat y) (t_rows (values_t d))))"
      using h by (simp add: take_three_more)
    finally show ?thesis using jk bx "by" by simp
  qed
  show ?thesis
  proof (rule exI [of _ x], rule exI [of _ y], intro conjI)
    show "i < length (window_origins s d (patch_size_x, patch_size_y) overlap)"
      using len by (simp add: ov)
    show "window_origins s d (patch_size_x, patch_size_y) overlap ! i = (x, y)"
      using o by (simp add: ov)
    show "fst (items ! i) = tslice (values_t d) y (y + patch_size_y) x (x + patch_size_x + 3)"
      by (rule p)
    show "is_line_in_patch isect d (x + 3, y) (patch_size_x, patch_size_y)
          (label_offset_x, label_offset_y) = Inr (snd (items ! i))"
      by (rule l)
    show "\<exists>sxv exv syv eyv ls.
           py_index (x_axes d) (x + 3 + label_offset_x) = Inr sxv
         \<and> py_index (x_axes d) (x + 3 + patch_size_x - label_offset_x) = Inr exv
         \<and> py_index (y_axes d) (y + label_offset_y) = Inr syv
         \<and> py_index (y_axes d) (y + patch_size_y - label_offset_y) = Inr eyv
         \<and> transition_lines d = Some ls
         \<and> snd (items ! i)
             = list_ex (\<lambda>line. isect line [(sxv, syv), (exv, syv), (exv, eyv), (sxv, eyv)]) ls
         \<and> (fst overlap < patch_size_x + 3 \<and> snd overlap < patch_size_y
              \<and> 0 \<le> label_offset_x \<and> label_offset_x \<le> patch_size_x
              \<and> 0 \<le> label_offset_y \<and> label_offset_y \<le> patch_size_y \<longrightarrow>
              sxv = x_axes d ! nat (x + 3 + label_offset_x)
            \<and> exv = x_axes d ! nat (x + 3 + patch_size_x - label_offset_x)
            \<and> syv = y_axes d ! nat (y + label_offset_y)
            \<and> eyv = y_axes d ! nat (y + patch_size_y - label_offset_y))"
      using sx ex sy ey ls lab axis unfolding ov
      by (intro exI [of _ sxv] exI [of _ exv] exI [of _ syv] exI [of _ eyv] exI [of _ ls])
         simp
    show "0 \<le> patch_size_x \<and> fst overlap < patch_size_x + 3 \<longrightarrow>
          t_cols (fst (items ! i)) = nat patch_size_x + 3
          \<and> t_rows (fst (items ! i)) =
              map2 (@) (t_rows (tslice (values_t d) y (y + patch_size_y) x (x + 3)))
                (t_rows (tslice (values_t d) y (y + patch_size_y) (x + 3) (x + 3 + patch_size_x)))"
      using w unfolding ov by simp
    show "0 \<le> patch_size_x \<and> 0 \<le> patch_size_y
          \<and> fst overlap < patch_size_x + 3 \<and> snd overlap < patch_size_y \<longrightarrow>
          (\<exists>j k. x = int j * (patch_size_x + 3 - fst overlap)
               \<and> y = int k * (patch_size_y - snd overlap))
          \<and> x + patch_size_x + 3 < int (snd (shape (values_t d)))
          \<and> y + patch_size_y < int (fst (shape (values_t d)))
          \<and> t_rows (fst (items ! i)) =
              map (\<lambda>row. take 3 (drop (nat x) row) @ take (nat patch_size_x) (drop (nat x + 3) row))
                (take (nat patch_size_y) (drop (nat y) (t_rows (values_t d))))"
      using cells unfolding ov by simp
  qed
qed


theorem get_patches_ewma_window_witness:
  "use_ewma ewma_settings
   \<and> 1 < length (fst (get_patches box_intersects ewma_settings diagram_20 (10, 5) (0, 0) (4, 0)))
   \<and> window_origins ewma_settings diagram_20 (10, 5) (0, 0) ! 1 = (0, 5)
   \<and> fst (fst (get_patches box_intersects ewma_settings diagram_20 (10, 5) (0, 0) (4, 0)) ! 1)
       = tslice (values_t diagram_20) 5 10 0 13
   \<and> t_cols (fst (fst (get_patches box_intersects ewma_settings diagram_20 (10, 5) (0, 0) (4, 0)) ! 1))
       = 13
   \<and> is_line_in_patch box_intersects diagram_20 (3, 5) (10, 5) (4, 0)
       = Inr (snd (fst (get_patches box_intersects ewma_settings diagram_20 (10, 5) (0, 0) (4, 0)) ! 1))
   \<and> x_axes diagram_20 ! 7 = 7 \<and> x_axes diagram_20 ! 9 = 9
   \<and> y_axes diagram_20 ! 5 = 5 \<and> y_axes diagram_20 ! 10 = 10
   \<and> transition_lines diagram_20 = Some [[(5, 5), (6, 6)]]
   \<and> snd (fst (get_patches box_intersects ewma_settings diagram_20 (10, 5) (0, 0) (4, 0)) ! 1)
       = list_ex (\<lambda>line. box_intersects line [(7, 5), (9, 5), (9, 10), (7, 10)]) [[(5, 5), (6, 6)]]
   \<and> \<not> snd (fst (get_patches box_intersects ewma_settings diagram_20 (10, 5) (0, 0) (4, 0)) ! 1)"
proof -
  let ?g = "get_patches box_intersects ewma_settings diagram_20 (10, 5) (0, 0) (4, 0)"
  have h1: "use_ewma ewma_settings" by (simp add: ewma_settings_def)
  have h2: "?g = (fst ?g, snd ?g)" by simp
  have h3: "1 < length (fst ?g)" by code_simp
  have o: "window_origins ewma_settings diagram_20 (10, 5) (0, 0) ! 1 = (0, 5)" by code_simp
  have ax: "x_axes diagram_20 ! 7 = 7" "x_axes diagram_20 ! 9 = 9"
    "y_axes diagram_20 ! 5 = 5" "y_axes diagram_20 ! 10 = 10"
    by (simp_all add: diagram_20_def)
  have tl: "transition_lines diagram_20 = Some [[(5, 5), (6, 6)]]"
    by (simp add: diagram_20_def)
  have no: "\<not> list_ex (\<lambda>line. box_intersects line [(7, 5), (9, 5), (9, 10), (7, 10)])
      [[(5, 5), (6, 6)]]"
    by (simp add: box_intersects_def)
  from get_patches_ewma_window [OF h1 h2 h3] o
  obtain sxv exv syv eyv ls where
    p: "fst (fst ?g ! 1) = tslice (values_t diagram_20) 5 (5 + 5) 0 (0 + 10 + 3)"
    and l: "is_line_in_patch box_intersects diagram_20 (0 + 3, 5) (10, 5) (4, 0)
       = Inr (snd (fst ?g ! 1))"
    and ls: "transition_lines diagram_20 = Some ls"
    and lab: "snd (fst ?g ! 1)
       = list_ex (\<lambda>line. box_intersects line [(sxv, syv), (exv, syv), (exv, eyv), (sxv, eyv)]) ls"
    and v: "sxv = x_axes diagram_20 ! nat (0 + 3 + 4)"
      "exv = x_axes diagram_20 ! nat (0 + 3 + 10 - 4)"
      "syv = y_axes diagram_20 ! nat (5 + 0)"
      "eyv = y_axes diagram_20 ! nat (5 + 5 - 0)"
    and c: "t_cols (fst (fst ?g ! 1)) = nat 10 + 3"
    by (auto simp del: get_patches.simps is_line_in_patch.simps)
  from v ax have v': "sxv = 7" "exv = 9" "syv = 5" "eyv = 10" by simp_all
  from ls tl have ls': "ls = [[(5, 5), (6, 6)]]" by simp
  from lab have lab': "snd (fst ?g ! 1)
       = list_ex (\<lambda>line. box_intersects line [(7, 5), (9, 5), (9, 10), (7, 10)])
           [[(5, 5), (6, 6)]]"
    unfolding v' ls' .
  with no have f: "\<not> snd (fst ?g ! 1)" by simp
  from p have p': "fst (fst ?g ! 1) = tslice (values_t diagram_20) 5 10 0 13" by simp
  from l have l': "is_line_in_patch box_intersects diagram_20 (3, 5) (10, 5) (4, 0)
       = Inr (snd (fst ?g ! 1))"
    by (simp del: is_line_in_patch.simps)
  from c have c': "t_cols (fst (fst ?g ! 1)) = 13" by simp
  from h1 h3 o p' c' l' ax tl lab' f show ?thesis by blast
qed










section \<open>Order of the labelled areas\<close>

lemma first_regime_least:
  assumes "i < length areas"
    and "contains (snd (areas ! i)) point"
    and "\<forall>k<i. \<not> contains (snd (areas ! k)) point"
  shows "first_regime contains point areas = fst (areas ! i)"
  using assms
proof (induction areas arbitrary: i)
  case Nil
  then show ?case by simp
next
  case (Cons a areas)
  obtain regime area where a: "a = (regime, area)" by (cases a)
  show ?case
  proof (cases i)
    case 0
    with Cons.prems a show ?thesis by simp
  next
    case (Suc j)
    from Cons.prems(3) Suc have "\<not> contains (snd ((a # areas) ! 0)) point" by blast
    then have n: "\<not> contains area point" using a by simp
    have "\<forall>k<j. \<not> contains (snd (areas ! k)) point"
    proof (intro allI impI)
      fix k assume "k < j"
      then have "Suc k < i" using Suc by simp
      with Cons.prems(3) have "\<not> contains (snd ((a # areas) ! Suc k)) point" by blast
      then show "\<not> contains (snd (areas ! k)) point" by simp
    qed
    with Cons.IH [of j] Cons.prems Suc have "first_regime contains point areas = fst (areas ! j)"
      by simp
    with n a Suc show ?thesis by simp
  qed
qed

lemma load_charge_annotations_order:
  assumes "load_charge_annotations env records x y pixel_size snap = Inr areas"
  shows "length areas = length records
     \<and> (\<forall>i<length records. \<exists>pts x_first x_last y_first y_last.
           o_polygon (records ! i) = Some pts
         \<and> py_index x 0 = Inr x_first \<and> py_index x (- 1) = Inr x_last
         \<and> py_index y 0 = Inr y_first \<and> py_index y (- 1) = Inr y_last
         \<and> polygon_of env
              (zip (coord_to_volt env (map fst pts) x_first x_last pixel_size snap False)
                   (coord_to_volt env (map snd pts) y_first y_last pixel_size snap True))
             = Some (snd (areas ! i))
         \<and> regime_of env (o_name (records ! i)) = Some (fst (areas ! i)))"
  using assms
proof (induction records arbitrary: areas)
  case Nil
  then show ?case by simp
next
  case (Cons area rest)
  from Cons.prems obtain pts x_first x_last y_first y_last area_obj regime processed where
    p: "o_polygon area = Some pts"
    and xf: "py_index x 0 = Inr x_first" and xl: "py_index x (- 1) = Inr x_last"
    and yf: "py_index y 0 = Inr y_first" and yl: "py_index y (- 1) = Inr y_last"
    and po: "polygon_of env
              (zip (coord_to_volt env (map fst pts) x_first x_last pixel_size snap False)
                   (coord_to_volt env (map snd pts) y_first y_last pixel_size snap True))
             = Some area_obj"
    and rg: "regime_of env (o_name area) = Some regime"
    and r: "load_charge_annotations env rest x y pixel_size snap = Inr processed"
    and a: "areas = (regime, area_obj) # processed"
    by (auto simp: Let_def split: option.splits sum.splits)
  from Cons.IH [OF r] have len: "length processed = length rest"
    and ih: "\<And>i. i < length rest \<Longrightarrow> \<exists>pts x_first x_last y_first y_last.
           o_polygon (rest ! i) = Some pts
         \<and> py_index x 0 = Inr x_first \<and> py_index x (- 1) = Inr x_last
         \<and> py_index y 0 = Inr y_first \<and> py_index y (- 1) = Inr y_last
         \<and> polygon_of env
              (zip (coord_to_volt env (map fst pts) x_first x_last pixel_size snap False)
                   (coord_to_volt env (map snd pts) y_first y_last pixel_size snap True))
             = Some (snd (processed ! i))
         \<and> regime_of env (o_name (rest ! i)) = Some (fst (processed ! i))"
    by blast+
  show ?case
  proof (intro conjI allI impI)
    show "length areas = length (area # rest)" using a len by simp
  next
    fix i assume i: "i < length (area # rest)"
    show "\<exists>pts x_first x_last y_first y_last.
           o_polygon ((area # rest) ! i) = Some pts
         \<and> py_index x 0 = Inr x_first \<and> py_index x (- 1) = Inr x_last
         \<and> py_index y 0 = Inr y_first \<and> py_index y (- 1) = Inr y_last
         \<and> polygon_of env
              (zip (coord_to_volt env (map fst pts) x_first x_last pixel_size snap False)
                   (coord_to_volt env (map snd pts) y_first y_last pixel_size snap True))
             = Some (snd (areas ! i))
         \<and> regime_of env (o_name ((area # rest) ! i)) = Some (fst (areas ! i))"
    proof (cases i)
      case 0
      with p xf xl yf yl po rg a show ?thesis by simp
    next
      case (Suc j)
      with i have "j < length rest" by simp
      from ih [OF this] Suc a show ?thesis by simp
    qed
  qed
qed


text \<open>
  C7.  For coordinates inside the diagram, \<open>get_charge\<close> returns the regime of the first
  area of the list that contains the point: the area of the least index \<open>i\<close> whose polygon
  contains it, whatever the later areas do.  And \<open>_load_charge_annotations\<close> keeps the
  order of its records: when it returns, the list has one area for each record, and the
  area at index \<open>i\<close> is made of the polygon and the name of the record at index \<open>i\<close>.
\<close>

theorem first_containing_region_wins:
  "(0 \<le> coord_x \<and> coord_x < int (length (x_axes d))
    \<and> 0 \<le> coord_y \<and> coord_y < int (length (y_axes d))
    \<and> charge_areas d = Some areas \<and> i < length areas
    \<and> contains (snd (areas ! i)) (x_axes d ! nat coord_x, y_axes d ! nat coord_y)
    \<and> (\<forall>k<i. \<not> contains (snd (areas ! k)) (x_axes d ! nat coord_x, y_axes d ! nat coord_y))
    \<longrightarrow> get_charge contains d coord_x coord_y = Inr (fst (areas ! i)))
   \<and> (load_charge_annotations env records x y pixel_size snap = Inr loaded
    \<longrightarrow> length loaded = length records
      \<and> (\<forall>i<length records. \<exists>pts x_first x_last y_first y_last.
            o_polygon (records ! i) = Some pts
          \<and> py_index x 0 = Inr x_first \<and> py_index x (- 1) = Inr x_last
          \<and> py_index y 0 = Inr y_first \<and> py_index y (- 1) = Inr y_last
          \<and> polygon_of env
               (zip (coord_to_volt env (map fst pts) x_first x_last pixel_size snap False)
                    (coord_to_volt env (map snd pts) y_first y_last pixel_size snap True))
              = Some (snd (loaded ! i))
          \<and> regime_of env (o_name (records ! i)) = Some (fst (loaded ! i))))"
proof (intro conjI impI)
  assume h: "0 \<le> coord_x \<and> coord_x < int (length (x_axes d))
    \<and> 0 \<le> coord_y \<and> coord_y < int (length (y_axes d))
    \<and> charge_areas d = Some areas \<and> i < length areas
    \<and> contains (snd (areas ! i)) (x_axes d ! nat coord_x, y_axes d ! nat coord_y)
    \<and> (\<forall>k<i. \<not> contains (snd (areas ! k)) (x_axes d ! nat coord_x, y_axes d ! nat coord_y))"
  then have "first_regime contains (x_axes d ! nat coord_x, y_axes d ! nat coord_y) areas
      = fst (areas ! i)"
    by (intro first_regime_least) simp_all
  with h show "get_charge contains d coord_x coord_y = Inr (fst (areas ! i))"
    by (simp add: get_charge_def py_index_in_range)
next
  assume "load_charge_annotations env records x y pixel_size snap = Inr loaded"
  from load_charge_annotations_order [OF this]
  show "length loaded = length records" and "\<forall>i<length records. \<exists>pts x_first x_last y_first y_last.
            o_polygon (records ! i) = Some pts
          \<and> py_index x 0 = Inr x_first \<and> py_index x (- 1) = Inr x_last
          \<and> py_index y 0 = Inr y_first \<and> py_index y (- 1) = Inr y_last
          \<and> polygon_of env
               (zip (coord_to_volt env (map fst pts) x_first x_last pixel_size snap False)
                    (coord_to_volt env (map snd pts) y_first y_last pixel_size snap True))
              = Some (snd (loaded ! i))
          \<and> regime_of env (o_name (records ! i)) = Some (fst (loaded ! i))"
    by blast+
qed


theorem first_containing_region_wins_witness:
  "charge_areas diagram_areas =
     Some [(REGIME ''0_electron'', [(5, 5), (7, 5), (7, 7), (5, 7)]),
           (REGIME ''1_electron'', [(0, 0), (2, 0), (2, 2), (0, 2)]),
           (REGIME ''2_electrons'', [(0, 0), (3, 0), (3, 3), (0, 3)])]
   \<and> \<not> box_contains [(5, 5), (7, 5), (7, 7), (5, 7)] (1, 1)
   \<and> box_contains [(0, 0), (2, 0), (2, 2), (0, 2)] (1, 1)
   \<and> box_contains [(0, 0), (3, 0), (3, 3), (0, 3)] (1, 1)
   \<and> get_charge box_contains diagram_areas 1 1 = Inr (REGIME ''1_electron'')
   \<and> load_charge_annotations example_env [area_1, area_2] [0, 1, 2] [0, 1, 2] 1 1 =
       Inr [(REGIME ''1_electron'', [(0, 2), (10, 2), (10, - 8), (0, - 8)]),
            (REGIME ''2_electrons'', [(0, 2), (20, 2), (20, - 18), (0, - 18)])]
   \<and> regime_of example_env (o_name ([area_1, area_2] ! 1)) = Some (REGIME ''2_electrons'')"
proof -
  let ?areas = "[(REGIME ''0_electron'', [(5, 5), (7, 5), (7, 7), (5, 7)]),
           (REGIME ''1_electron'', [(0, 0), (2, 0), (2, 2), (0, 2)]),
           (REGIME ''2_electrons'', [(0, 0), (3, 0), (3, 3), (0, 3)])]"
  let ?loaded = "[(REGIME ''1_electron'', [(0, 2), (10, 2), (10, - 8), (0, - 8)]),
            (REGIME ''2_electrons'', [(0, 2), (20, 2), (20, - 18), (0, - 18)])]"
  have a: "charge_areas diagram_areas = Some ?areas" by (simp add: diagram_areas_def)
  have ax: "x_axes diagram_areas = [0, 1]" "y_axes diagram_areas = [0, 1]"
    by (simp_all add: diagram_areas_def)
  have c0: "\<not> box_contains [(5, 5), (7, 5), (7, 7), (5, 7)] (1, 1)"
    and c1: "box_contains [(0, 0), (2, 0), (2, 2), (0, 2)] (1, 1)"
    and c2: "box_contains [(0, 0), (3, 0), (3, 3), (0, 3)] (1, 1)"
    by (simp_all add: box_contains_def)
  have l: "load_charge_annotations example_env [area_1, area_2] [0, 1, 2] [0, 1, 2] 1 1 = Inr ?loaded"
    by code_simp
  note t = first_containing_region_wins
      [where coord_x = 1 and coord_y = 1 and d = diagram_areas and areas = ?areas and i = 1
         and contains = box_contains and env = example_env and records = "[area_1, area_2]"
         and x = "[0, 1, 2]" and y = "[0, 1, 2]" and pixel_size = 1 and snap = 1
         and loaded = ?loaded]
  have g: "get_charge box_contains diagram_areas 1 1 = Inr (REGIME ''1_electron'')"
    using t a ax c0 c1 by simp
  have r: "regime_of example_env (o_name ([area_1, area_2] ! 1)) = Some (REGIME ''2_electrons'')"
    using t l by auto
  from a c0 c1 c2 g l r show ?thesis by simp
qed


section \<open>Properties of \<open>_load_interpolated_csv\<close>\<close>

lemma load_interpolated_csv_result:
  assumes w: "\<forall>r \<in> set rows. length r = length header" and ne: "rows \<noteq> []"
    and h: "3 \<le> length header"
  shows "load_interpolated_csv cast (header # rows) invert_y_axis =
     Inr (map (\<lambda>i. of_nat i * header ! 2 + header ! 0) [0..<length header],
          map (\<lambda>j. of_nat j * header ! 2 + header ! 1) [0..<length rows],
          \<lparr>t_rows = map (map cast) (if invert_y_axis then rev rows else rows),
           t_cols = length header\<rparr>)"
proof -
  have "list_all (\<lambda>r. length r = length header) rows"
    using w by (simp add: list_all_iff)
  moreover have "0 < length rows" using ne by simp
  ultimately show ?thesis
    using h by (simp add: load_interpolated_csv_def Let_def)
qed


lemma single_of_int_small:
  "single_of_int 0 = 0" "single_of_int 1 = 1" "single_of_int 2 = 2" "single_of_int 3 = 3"
  "single_of_int 4 = 4" "single_of_int 5 = 5" "single_of_int 6 = 6"
  by (simp_all add: single_of_int_def single_of_nat_def)

lemma bit_len_2_24_1: "bit_len 16777217 = 25"
  by simp

lemma single_of_int_2_24_1: "single_of_int 16777217 = 16777216"
  by (simp add: single_of_int_def single_of_nat_def Let_def bit_len_2_24_1)


text \<open>
  C6.  Let the first line of the table hold \<open>x_start\<close>, \<open>y_start\<close> and \<open>step\<close> in its first
  three cells, and let the other lines, each as long as the first, be the value matrix.
  Then \<open>_load_interpolated_csv\<close> returns axes with \<open>x[i] = i * step + x_start\<close> for the
  columns and \<open>y[j] = j * step + y_start\<close> for the rows, and a tensor of the shape of the
  matrix whose cell \<open>(j, i)\<close> is the single-precision conversion of the cell \<open>(j, i)\<close> of
  the matrix, or of the cell \<open>(height - 1 - j, i)\<close> when the y axis is inverted.  When the
  conversion changes no cell, the rows are the rows of the matrix, in their order or in
  the reverse order.
\<close>

theorem load_interpolated_csv_grid:
  fixes cast :: "'a::semiring_1 \<Rightarrow> 'a"
  assumes "\<forall>r \<in> set rows. length r = length header" and "rows \<noteq> []"
    and "3 \<le> length header"
  shows "\<exists>x y v.
       load_interpolated_csv cast (header # rows) invert_y_axis = Inr (x, y, v)
     \<and> length x = length header
     \<and> (\<forall>i < length header. x ! i = of_nat i * header ! 2 + header ! 0)
     \<and> length y = length rows
     \<and> (\<forall>j < length rows. y ! j = of_nat j * header ! 2 + header ! 1)
     \<and> shape v = (length rows, length header)
     \<and> (\<forall>j < length rows. \<forall>i < length header.
           t_rows v ! j ! i =
             cast (rows ! (if invert_y_axis then length rows - 1 - j else j) ! i))
     \<and> ((\<forall>r \<in> set rows. \<forall>c \<in> set r. cast c = c)
          \<longrightarrow> t_rows v = (if invert_y_axis then rev rows else rows))"
proof -
  let ?vals = "if invert_y_axis then rev rows else rows"
  let ?x = "map (\<lambda>i. of_nat i * header ! 2 + header ! 0) [0..<length header]"
  let ?y = "map (\<lambda>j. of_nat j * header ! 2 + header ! 1) [0..<length rows]"
  let ?v = "\<lparr>t_rows = map (map cast) ?vals, t_cols = length header\<rparr>"
  have cell: "t_rows ?v ! j ! i =
             cast (rows ! (if invert_y_axis then length rows - 1 - j else j) ! i)"
    if j: "j < length rows" and i: "i < length header" for j i
  proof -
    have r: "?vals ! j = rows ! (if invert_y_axis then length rows - 1 - j else j)"
      using j by (simp add: rev_nth)
    have "rows ! (if invert_y_axis then length rows - 1 - j else j) \<in> set rows"
      using j by simp
    with assms(1) have "length (rows ! (if invert_y_axis then length rows - 1 - j else j))
        = length header" by blast
    with i r j show ?thesis by simp
  qed
  have same: "t_rows ?v = ?vals" if "\<forall>r \<in> set rows. \<forall>c \<in> set r. cast c = c"
  proof -
    have mr: "map cast r = r" if "r \<in> set rows" for r
      using that \<open>\<forall>r \<in> set rows. \<forall>c \<in> set r. cast c = c\<close> by (intro map_idI) blast
    have "map (map cast) rows = rows" by (rule map_idI) (rule mr)
    then have "map (map cast) ?vals = ?vals" by (simp add: rev_map [symmetric])
    then show ?thesis by simp
  qed
  have l: "load_interpolated_csv cast (header # rows) invert_y_axis = Inr (?x, ?y, ?v)"
    by (rule load_interpolated_csv_result [OF assms])
  have s: "shape ?v = (length rows, length header)" by (simp add: shape_def)
  show ?thesis
  proof (intro exI conjI)
    show "load_interpolated_csv cast (header # rows) invert_y_axis = Inr (?x, ?y, ?v)"
      by (rule l)
    show "length ?x = length header" by simp
    show "\<forall>i < length header. ?x ! i = of_nat i * header ! 2 + header ! 0" by simp
    show "length ?y = length rows" by simp
    show "\<forall>j < length rows. ?y ! j = of_nat j * header ! 2 + header ! 1" by simp
    show "shape ?v = (length rows, length header)" by (rule s)
    show "\<forall>j < length rows. \<forall>i < length header.
           t_rows ?v ! j ! i =
             cast (rows ! (if invert_y_axis then length rows - 1 - j else j) ! i)"
      using cell by blast
    show "(\<forall>r \<in> set rows. \<forall>c \<in> set r. cast c = c)
          \<longrightarrow> t_rows ?v = (if invert_y_axis then rev rows else rows)"
      using same by blast
  qed
qed

theorem load_interpolated_csv_grid_witness:
  "map length [[1, 2, 3], [4, 5, 6 :: int]] = [3, 3] \<and> length [0, 0, 1 :: int] = 3
   \<and> map (map single_of_int) [[1, 2, 3], [4, 5, 6]] = [[1, 2, 3], [4, 5, 6]]
   \<and> load_interpolated_csv single_of_int [[0, 0, 1], [1, 2, 3], [4, 5, 6]] True
       = Inr ([0, 1, 2], [0, 1], \<lparr>t_rows = [[4, 5, 6], [1, 2, 3]], t_cols = 3\<rparr>)"
proof -
  have h1: "\<forall>r \<in> set [[1, 2, 3], [4, 5, 6 :: int]]. length r = length [0, 0, 1 :: int]"
    by simp
  have h2: "[[1, 2, 3], [4, 5, 6 :: int]] \<noteq> []" by simp
  have h3: "3 \<le> length [0, 0, 1 :: int]" by simp
  have h4: "\<forall>r \<in> set [[1, 2, 3], [4, 5, 6]]. \<forall>c \<in> set r. single_of_int c = c"
    by (simp add: single_of_int_small)
  from load_interpolated_csv_grid [OF h1 h2 h3, of single_of_int True]
  obtain x y v where
    l: "load_interpolated_csv single_of_int [[0, 0, 1], [1, 2, 3], [4, 5, 6]] True = Inr (x, y, v)"
    and lx: "length x = length [0, 0, 1 :: int]"
    and x: "\<forall>i < length [0, 0, 1 :: int]. x ! i = of_nat i * [0, 0, 1] ! 2 + [0, 0, 1] ! 0"
    and ly: "length y = length [[1, 2, 3], [4, 5, 6 :: int]]"
    and y: "\<forall>j < length [[1, 2, 3], [4, 5, 6 :: int]]. y ! j = of_nat j * [0, 0, 1] ! 2 + [0, 0, 1] ! 1"
    and sh: "shape v = (length [[1, 2, 3], [4, 5, 6 :: int]], length [0, 0, 1 :: int])"
    and rows: "(\<forall>r \<in> set [[1, 2, 3], [4, 5, 6]]. \<forall>c \<in> set r. single_of_int c = c)
          \<longrightarrow> t_rows v = (if True then rev [[1, 2, 3], [4, 5, 6]] else [[1, 2, 3], [4, 5, 6]])"
    by blast
  have xe: "x = [0, 1, 2]"
    using lx x by (intro nth_equalityI) (auto simp: less_Suc_eq numeral_3_eq_3)
  have ye: "y = [0, 1]"
    using ly y by (intro nth_equalityI) (auto simp: less_Suc_eq numeral_2_eq_2)
  have tr: "t_rows v = [[4, 5, 6], [1, 2, 3]]" using rows h4 by simp
  have tc: "t_cols v = 3" using sh by (simp add: shape_def)
  have "v = \<lparr>t_rows = [[4, 5, 6], [1, 2, 3]], t_cols = 3\<rparr>"
    using tr tc by (cases v) simp
  with l xe ye show ?thesis by (simp add: single_of_int_small)
qed

theorem load_interpolated_csv_single_precision_counterexample:
  "load_interpolated_csv single_of_int [[0, 0, 1], [16777217, 0, 0]] False
     = Inr ([0, 1, 2], [0], \<lparr>t_rows = [[16777216, 0, 0]], t_cols = 3\<rparr>)
   \<and> [[16777216, 0, 0]] \<noteq> [[16777217, 0, 0 :: int]]"
  by (simp add: load_interpolated_csv_def Let_def upt_rec
        single_of_int_small single_of_int_2_24_1)


section \<open>Properties of \<open>load_diagrams\<close>\<close>

lemma py_index_error: "py_index xs i = Inl e \<Longrightarrow> e = IndexError"
  by (auto simp: py_index_def Let_def split: if_splits)

lemma load_lines_annotations_error:
  "load_lines_annotations env records x y pixel_size snap = Inl e
   \<Longrightarrow> e \<noteq> ValueError FolderNotFound"
proof (induction records)
  case Nil
  then show ?case by simp
next
  case (Cons line rest)
  then show ?case
    by (auto simp: Let_def split: option.splits sum.splits dest: py_index_error)
qed

lemma load_charge_annotations_error:
  "load_charge_annotations env records x y pixel_size snap = Inl e
   \<Longrightarrow> e \<noteq> ValueError FolderNotFound"
proof (induction records)
  case Nil
  then show ?case by simp
next
  case (Cons area rest)
  then show ?case
    by (auto simp: Let_def split: option.splits sum.splits dest: py_index_error)
qed

lemma load_interpolated_csv_error:
  "load_interpolated_csv cast table invert_y_axis = Inl e \<Longrightarrow> e \<noteq> ValueError FolderNotFound"
  by (auto simp: load_interpolated_csv_def Let_def split: if_splits)

lemma read_classifications_error:
  "read_classifications env cls = Inl e \<Longrightarrow> e \<noteq> ValueError FolderNotFound"
  by (auto simp: read_classifications_def split: option.splits)

text \<open>
  What one grid file does to the state does not depend on the state: it raises, or it adds
  one to a counter, or it appends a diagram.
\<close>

lemma build_diagram_outcome:
  "\<exists>r. (\<forall>e. r = Inl e \<longrightarrow> e \<noteq> ValueError FolderNotFound) \<and>
     (\<forall>st. build_diagram env s load_lines load_areas st file_basename table current_labels
            label_pixel_size
        = (case r of
             Inl e \<Rightarrow> Inl e
           | Inr None \<Rightarrow> Inr (st\<lparr>nb_no_label := nb_no_label st + 1\<rparr>)
           | Inr (Some d) \<Rightarrow> Inr (st\<lparr>diagrams := diagrams st @ [d]\<rparr>)))"
proof (cases "load_interpolated_csv (to_float env) table True")
  case (Inl e)
  with load_interpolated_csv_error [OF Inl] show ?thesis
    by (intro exI [of _ "Inl e"]) (simp add: build_diagram_def)
next
  case (Inr xyv)
  obtain x y vals where xyv: "xyv = (x, y, vals)" by (cases xyv)
  define lr where "lr = (if load_lines
            then (let line_labels = [''line_1'', ''line_2'']
                        @ (if load_parasitic_lines s then [''line_parasite''] else [])
                  in case load_lines_annotations env
                            (filter (\<lambda>l. o_name l \<in> set line_labels) (objects current_labels))
                            x y label_pixel_size 1 of
                       Inl e \<Rightarrow> Inl e
                     | Inr ls \<Rightarrow> Inr (Some ls))
            else Inr None)"
  define ar where "ar = (if load_areas
            then (case load_charge_annotations env
                         (filter (\<lambda>l. str_in ''electron'' (o_name l)) (objects current_labels))
                         x y label_pixel_size 1 of
                    Inl e \<Rightarrow> Inl e
                  | Inr loaded \<Rightarrow> Inr (Some loaded))
            else Inr None)"
  have b: "build_diagram env s load_lines load_areas st file_basename table current_labels
          label_pixel_size =
     (case lr of
        Inl e \<Rightarrow> Inl e
      | Inr ls \<Rightarrow>
     (if ls = Some [] then Inr (st\<lparr>nb_no_label := nb_no_label st + 1\<rparr>)
      else
     (case ar of
        Inl e \<Rightarrow> Inl e
      | Inr charge_area \<Rightarrow>
     (if charge_area = Some [] then Inr (st\<lparr>nb_no_label := nb_no_label st + 1\<rparr>)
      else Inr (st\<lparr>diagrams := diagrams st @
                  [\<lparr>name = file_basename, x_axes = x, y_axes = y, values_t = vals,
                    values_norm = None, transition_lines = ls,
                    charge_areas = charge_area\<rparr>]\<rparr>)))))" for st
    unfolding build_diagram_def lr_def ar_def Inr xyv by simp
  have le: "e \<noteq> ValueError FolderNotFound" if "lr = Inl e" for e
    using that
    by (auto simp: lr_def Let_def split: if_splits sum.splits
             dest: load_lines_annotations_error)
  have ae: "e \<noteq> ValueError FolderNotFound" if "ar = Inl e" for e
    using that
    by (auto simp: ar_def split: if_splits sum.splits
             dest: load_charge_annotations_error)
  show ?thesis
  proof (cases lr)
    case (Inl e)
    with le b show ?thesis by (intro exI [of _ "Inl e"]) simp
  next
    case l: (Inr ls)
    show ?thesis
    proof (cases "ls = Some []")
      case True
      with b l show ?thesis by (intro exI [of _ "Inr None"]) simp
    next
      case nl: False
      show ?thesis
      proof (cases ar)
        case (Inl e)
        with ae b l nl show ?thesis by (intro exI [of _ "Inl e"]) simp
      next
        case (Inr ca)
        show ?thesis
        proof (cases "ca = Some []")
          case True
          with b l nl Inr show ?thesis by (intro exI [of _ "Inr None"]) simp
        next
          case False
          with b l nl Inr show ?thesis
            by (intro exI [of _ "Inr (Some \<lparr>name = file_basename, x_axes = x, y_axes = y,
                    values_t = vals, values_norm = None, transition_lines = ls,
                    charge_areas = ca\<rparr>)"]) simp
        qed
      qed
    qed
  qed
qed

lemma load_one_excluded:
  assumes "not_in_white_list white_list (fst entry)"
  shows "load_one env s labels single_dot load_lines load_areas white_list st entry
     = Inr (st\<lparr>nb_excluded := nb_excluded st + 1\<rparr>)"
  using assms by (simp add: load_one_def)

lemma load_one_no_label:
  assumes "\<not> not_in_white_list white_list (fst entry)"
    and "no_label env labels (fst entry)"
  shows "load_one env s labels single_dot load_lines load_areas white_list st entry
     = Inr (st\<lparr>nb_no_label := nb_no_label st + 1\<rparr>)"
  using assms
  by (auto simp: load_one_def no_label_def
           split: option.splits list.splits sum.splits)

lemma load_one_wrong_dot_count:
  assumes "\<not> not_in_white_list white_list (fst entry)"
    and "wrong_dot_count env labels single_dot (fst entry)"
  shows "load_one env s labels single_dot load_lines load_areas white_list st entry
     = Inr (st\<lparr>nb_filtered := nb_filtered st + 1\<rparr>)"
  using assms
  by (auto simp: load_one_def wrong_dot_count_def
           split: option.splits list.splits sum.splits)

lemma no_label_not_wrong_dot_count:
  "no_label env labels file_basename \<Longrightarrow> \<not> wrong_dot_count env labels single_dot file_basename"
  by (auto simp: no_label_def wrong_dot_count_def
           split: option.splits list.splits sum.splits)


text \<open>The four outcomes of one turn of the loop, given as a function of the state.\<close>

lemma load_one_outcome:
  "\<exists>r. (\<forall>e. r = Inl e \<longrightarrow> e \<noteq> ValueError FolderNotFound) \<and>
     (\<forall>a b c ds. r = Inr (ds, a, b, c) \<longrightarrow>
        (b = (if not_in_white_list white_list (fst entry) then 1 else 0))) \<and>
     (\<forall>st. load_one env s labels single_dot load_lines load_areas white_list st entry
        = (case r of
             Inl e \<Rightarrow> Inl e
           | Inr (ds, a, b, c) \<Rightarrow>
               Inr \<lparr>diagrams = diagrams st @ ds, nb_no_label = nb_no_label st + a,
                    nb_excluded = nb_excluded st + b, nb_filtered = nb_filtered st + c\<rparr>))"
proof -
  have unl: "?thesis"
    if "\<And>st. load_one env s labels single_dot load_lines load_areas white_list st entry
          = Inr (st\<lparr>nb_no_label := nb_no_label st + 1\<rparr>)"
      and "\<not> not_in_white_list white_list (fst entry)"
    using that by (intro exI [of _ "Inr ([], 1, 0, 0)"]) simp
  show ?thesis
  proof (cases "not_in_white_list white_list (fst entry)")
    case True
    then show ?thesis
      by (intro exI [of _ "Inr ([], 0, 1, 0)"]) (simp add: load_one_def)
  next
    case False
    show ?thesis
    proof (cases "labels (fst entry @ ''.png'')")
      case None
      with False show ?thesis by (intro unl) (simp_all add: load_one_def)
    next
      case (Some label_data)
      show ?thesis
      proof (cases "find (\<lambda>l. str_upper env (p_name l) = QDSD) (projects label_data)")
        case None
        with False Some show ?thesis by (intro unl) (simp_all add: load_one_def)
      next
        case p: (Some project)
        show ?thesis
        proof (cases "p_labels project")
          case Nil
          with False Some p show ?thesis
            by (intro exI [of _ "Inl IndexError"]) (simp add: load_one_def)
        next
          case (Cons current_labels others)
          show ?thesis
          proof (cases "read_classifications env (classifications current_labels)")
            case (Inl e)
            with read_classifications_error [OF Inl] False Some p Cons show ?thesis
              by (intro exI [of _ "Inl e"]) (simp add: load_one_def)
          next
            case (Inr c)
            show ?thesis
            proof (cases c)
              case None
              with False Some p Cons Inr show ?thesis
                by (intro unl) (simp_all add: load_one_def)
            next
              case c: (Some pd)
              obtain label_pixel_size is_single_dot
                where pd: "pd = (label_pixel_size, is_single_dot)"
                by (cases pd)
              show ?thesis
              proof (cases "single_dot \<noteq> is_single_dot")
                case True
                with False Some p Cons Inr c pd show ?thesis
                  by (intro exI [of _ "Inr ([], 0, 0, 1)"]) (simp add: load_one_def)
              next
                case same: False
                have l: "load_one env s labels single_dot load_lines load_areas white_list st
                      entry
                    = build_diagram env s load_lines load_areas st (fst entry) (snd entry)
                        current_labels label_pixel_size" for st
                  using False Some p Cons Inr c pd same by (simp add: load_one_def)
                from build_diagram_outcome [of env s load_lines load_areas "fst entry"
                    "snd entry" current_labels label_pixel_size]
                obtain r where r: "\<And>e. r = Inl e \<Longrightarrow> e \<noteq> ValueError FolderNotFound"
                  and b: "\<And>st. build_diagram env s load_lines load_areas st (fst entry)
                        (snd entry) current_labels label_pixel_size
                     = (case r of
                          Inl e \<Rightarrow> Inl e
                        | Inr None \<Rightarrow> Inr (st\<lparr>nb_no_label := nb_no_label st + 1\<rparr>)
                        | Inr (Some d) \<Rightarrow> Inr (st\<lparr>diagrams := diagrams st @ [d]\<rparr>))"
                  by blast
                show ?thesis
                proof (cases r)
                  case (Inl e)
                  with r l b show ?thesis by (intro exI [of _ "Inl e"]) simp
                next
                  case (Inr od)
                  show ?thesis
                  proof (cases od)
                    case None
                    with Inr l b False show ?thesis by (intro unl) simp_all
                  next
                    case (Some d)
                    with Inr l b False show ?thesis
                      by (intro exI [of _ "Inr ([d], 0, 0, 0)"]) simp
                  qed
                qed
              qed
            qed
          qed
        qed
      qed
    qed
  qed
qed



lemma load_loop_outcome:
  "\<exists>r. (\<forall>e. r = Inl e \<longrightarrow> e \<noteq> ValueError FolderNotFound) \<and>
     (\<forall>a b c ds. r = Inr (ds, a, b, c) \<longrightarrow>
        b = length (filter (\<lambda>entry. not_in_white_list white_list (fst entry)) entries)) \<and>
     (\<forall>st. load_loop env s labels single_dot load_lines load_areas white_list st entries
        = (case r of
             Inl e \<Rightarrow> Inl e
           | Inr (ds, a, b, c) \<Rightarrow>
               Inr \<lparr>diagrams = diagrams st @ ds, nb_no_label = nb_no_label st + a,
                    nb_excluded = nb_excluded st + b, nb_filtered = nb_filtered st + c\<rparr>))"
proof (induction entries)
  case Nil
  show ?case by (intro exI [of _ "Inr ([], 0, 0, 0)"]) simp
next
  case (Cons entry rest)
  from load_one_outcome [of white_list entry env s labels single_dot load_lines load_areas]
  obtain r1 where e1: "\<And>e. r1 = Inl e \<Longrightarrow> e \<noteq> ValueError FolderNotFound"
    and x1: "\<And>a b c ds. r1 = Inr (ds, a, b, c) \<Longrightarrow>
        b = (if not_in_white_list white_list (fst entry) then 1 else 0)"
    and o1: "\<And>st. load_one env s labels single_dot load_lines load_areas white_list st entry
        = (case r1 of
             Inl e \<Rightarrow> Inl e
           | Inr (ds, a, b, c) \<Rightarrow>
               Inr \<lparr>diagrams = diagrams st @ ds, nb_no_label = nb_no_label st + a,
                    nb_excluded = nb_excluded st + b, nb_filtered = nb_filtered st + c\<rparr>)"
    by blast
  from Cons.IH
  obtain r2 where e2: "\<And>e. r2 = Inl e \<Longrightarrow> e \<noteq> ValueError FolderNotFound"
    and x2: "\<And>a b c ds. r2 = Inr (ds, a, b, c) \<Longrightarrow>
        b = length (filter (\<lambda>entry. not_in_white_list white_list (fst entry)) rest)"
    and o2: "\<And>st. load_loop env s labels single_dot load_lines load_areas white_list st rest
        = (case r2 of
             Inl e \<Rightarrow> Inl e
           | Inr (ds, a, b, c) \<Rightarrow>
               Inr \<lparr>diagrams = diagrams st @ ds, nb_no_label = nb_no_label st + a,
                    nb_excluded = nb_excluded st + b, nb_filtered = nb_filtered st + c\<rparr>)"
    by blast
  show ?case
  proof (cases r1)
    case (Inl e)
    with e1 o1 show ?thesis by (intro exI [of _ "Inl e"]) simp
  next
    case r1: (Inr q1)
    obtain ds1 a1 b1 c1 where q1: "q1 = (ds1, a1, b1, c1)" by (cases q1)
    show ?thesis
    proof (cases r2)
      case (Inl e)
      with e2 o1 o2 r1 q1 show ?thesis by (intro exI [of _ "Inl e"]) simp
    next
      case r2: (Inr q2)
      obtain ds2 a2 b2 c2 where q2: "q2 = (ds2, a2, b2, c2)" by (cases q2)
      from x1 r1 q1 have b1: "b1 = (if not_in_white_list white_list (fst entry) then 1 else 0)"
        by simp
      from x2 r2 q2
      have b2: "b2 = length (filter (\<lambda>entry. not_in_white_list white_list (fst entry)) rest)"
        by simp
      show ?thesis
        using o1 o2 r1 q1 r2 q2 b1 b2
        by (intro exI [of _ "Inr (ds1 @ ds2, a1 + a2, b1 + b2, c1 + c2)"])
           (simp add: add.assoc)
    qed
  qed
qed



lemma example_labels:
  "labels_of [row_a, row_b, row_c] ''a.png'' = Some row_a"
  "labels_of [row_a, row_b, row_c] ''b.png'' = Some row_b"
  "labels_of [row_a, row_b, row_c] ''c.png'' = Some row_c"
  "labels_of [row_a, row_b, row_c] ''z.png'' = None"
  by (simp_all add: labels_of_def row_a_def row_b_def row_c_def)

lemma example_upper_qdsd:
  "example_upper [81, 68, 83, 68] = QDSD" "example_upper [113, 100, 383, 100] = QDSD"
  by (simp_all add: example_upper_def QDSD_def)

lemma single_of_int_digits:
  "single_of_int 1 = 1" "single_of_int 2 = 2" "single_of_int 3 = 3"
  "single_of_int 4 = 4" "single_of_int 5 = 5" "single_of_int 6 = 6"
  by (simp_all add: single_of_int_def single_of_nat_def)

lemma example_no_label:
  "no_label example_env (labels_of [row_a, row_b, row_c]) ''b''"
  "no_label example_env (labels_of [row_a, row_b, row_c]) ''z''"
  "\<not> no_label example_env (labels_of [row_a, row_b, row_c]) ''a''"
  "\<not> no_label example_env (labels_of [row_a, row_b, row_c]) ''c''"
  unfolding no_label_def
  by (simp_all add: example_labels)
     (simp_all add: row_a_def row_b_def row_c_def example_upper_qdsd
        read_classifications_def pixel_size_1_def single_dot_answer_def double_dot_answer_def
        example_env_def)

lemma example_wrong_dot_count:
  "wrong_dot_count example_env (labels_of [row_a, row_b, row_c]) True ''c''"
  "\<not> wrong_dot_count example_env (labels_of [row_a, row_b, row_c]) True ''a''"
  unfolding wrong_dot_count_def
  by (simp_all add: example_labels)
     (simp_all add: row_a_def row_c_def example_upper_qdsd
        read_classifications_def pixel_size_1_def single_dot_answer_def double_dot_answer_def
        example_env_def)

lemma example_load_one_a:
  "\<not> not_in_white_list white_list ''a'' \<Longrightarrow>
   load_one example_env plain_settings (labels_of [row_a, row_b, row_c]) True True True
     white_list st (''a'', grid_file)
   = Inr (st\<lparr>diagrams := diagrams st @ [diagram_a]\<rparr>)"
  unfolding load_one_def
  by (simp add: example_labels)
     (simp add: row_a_def example_upper_qdsd read_classifications_def
        pixel_size_1_def single_dot_answer_def example_env_def build_diagram_def
        load_interpolated_csv_def grid_file_def single_of_int_digits plain_settings_def
        line_1_def area_1_def area_2_def py_index_def coord_to_volt_spec_def Let_def
        diagram_a_def upt_rec [of 0] upt_rec [of 1] upt_rec [of 2])

lemma example_load_one_skipped:
  "\<not> not_in_white_list white_list ''b'' \<Longrightarrow>
   load_one example_env plain_settings (labels_of [row_a, row_b, row_c]) True True True
     white_list st (''b'', grid_file) = Inr (st\<lparr>nb_no_label := nb_no_label st + 1\<rparr>)"
  "\<not> not_in_white_list white_list ''z'' \<Longrightarrow>
   load_one example_env plain_settings (labels_of [row_a, row_b, row_c]) True True True
     white_list st (''z'', grid_file) = Inr (st\<lparr>nb_no_label := nb_no_label st + 1\<rparr>)"
  "\<not> not_in_white_list white_list ''c'' \<Longrightarrow>
   load_one example_env plain_settings (labels_of [row_a, row_b, row_c]) True True True
     white_list st (''c'', grid_file) = Inr (st\<lparr>nb_filtered := nb_filtered st + 1\<rparr>)"
  "not_in_white_list white_list file_basename \<Longrightarrow>
   load_one example_env plain_settings (labels_of [row_a, row_b, row_c]) True True True
     white_list st (file_basename, grid_file) = Inr (st\<lparr>nb_excluded := nb_excluded st + 1\<rparr>)"
  by (simp_all add: load_one_no_label load_one_wrong_dot_count load_one_excluded
        example_no_label example_wrong_dot_count)







lemma load_diagrams_nb_excluded:
  assumes "load_diagrams env s rows (Some entries) single_dot load_lines load_areas white_list
      = Inr st"
  shows "nb_excluded st
     = length (filter (\<lambda>entry. not_in_white_list white_list (fst entry)) entries)"
proof -
  from load_loop_outcome [of white_list entries env s "labels_of rows" single_dot load_lines
      load_areas]
  obtain r where x: "\<And>a b c ds. r = Inr (ds, a, b, c) \<Longrightarrow>
        b = length (filter (\<lambda>entry. not_in_white_list white_list (fst entry)) entries)"
    and o: "\<And>st. load_loop env s (labels_of rows) single_dot load_lines load_areas white_list
          st entries
        = (case r of
             Inl e \<Rightarrow> Inl e
           | Inr (ds, a, b, c) \<Rightarrow>
               Inr \<lparr>diagrams = diagrams st @ ds, nb_no_label = nb_no_label st + a,
                    nb_excluded = nb_excluded st + b, nb_filtered = nb_filtered st + c\<rparr>)"
    by blast
  show ?thesis
  proof (cases r)
    case (Inl e)
    with o assms show ?thesis by (simp add: load_diagrams_def)
  next
    case (Inr q)
    obtain ds a b c where q: "q = (ds, a, b, c)" by (cases q)
    from x Inr q
    have "b = length (filter (\<lambda>entry. not_in_white_list white_list (fst entry)) entries)"
      by simp
    with o [of "\<lparr>diagrams = [], nb_no_label = 0, nb_excluded = 0, nb_filtered = 0\<rparr>"]
      assms Inr q
    show ?thesis by (auto simp: load_diagrams_def)
  qed
qed

lemma load_loop_white_list_empty:
  "load_loop env s labels single_dot load_lines load_areas (Some []) st entries
   = load_loop env s labels single_dot load_lines load_areas None st entries"
proof (induction entries arbitrary: st)
  case Nil
  then show ?case by simp
next
  case (Cons entry rest)
  have "load_one env s labels single_dot load_lines load_areas (Some []) st entry
      = load_one env s labels single_dot load_lines load_areas None st entry"
    by (simp add: load_one_def not_in_white_list_def)
  with Cons.IH show ?case by (simp split: sum.splits)
qed

lemma load_loop_skipped:
  assumes "\<forall>entry \<in> set entries. not_in_white_list white_list (fst entry)
      \<or> no_label env labels (fst entry)
      \<or> wrong_dot_count env labels single_dot (fst entry)"
  shows "load_loop env s labels single_dot load_lines load_areas white_list st entries
     = Inr \<lparr>diagrams = diagrams st,
            nb_no_label = nb_no_label st + length (filter (\<lambda>entry.
              \<not> not_in_white_list white_list (fst entry) \<and> no_label env labels (fst entry))
              entries),
            nb_excluded = nb_excluded st + length (filter (\<lambda>entry.
              not_in_white_list white_list (fst entry)) entries),
            nb_filtered = nb_filtered st + length (filter (\<lambda>entry.
              \<not> not_in_white_list white_list (fst entry)
              \<and> wrong_dot_count env labels single_dot (fst entry)) entries)\<rparr>"
  using assms
proof (induction entries arbitrary: st)
  case Nil
  then show ?case by simp
next
  case (Cons entry rest)
  from Cons.prems have rest: "\<forall>entry \<in> set rest. not_in_white_list white_list (fst entry)
      \<or> no_label env labels (fst entry)
      \<or> wrong_dot_count env labels single_dot (fst entry)"
    by simp
  note ih = Cons.IH [OF rest]
  consider (excluded) "not_in_white_list white_list (fst entry)"
    | (unlabelled) "\<not> not_in_white_list white_list (fst entry)" "no_label env labels (fst entry)"
    | (filtered) "\<not> not_in_white_list white_list (fst entry)"
        "\<not> no_label env labels (fst entry)" "wrong_dot_count env labels single_dot (fst entry)"
    using Cons.prems by auto
  then show ?case
  proof cases
    case excluded
    then show ?thesis
      by (simp add: load_one_excluded ih)
  next
    case unlabelled
    then show ?thesis
      by (simp add: load_one_no_label ih no_label_not_wrong_dot_count)
  next
    case filtered
    then show ?thesis
      by (simp add: load_one_wrong_dot_count ih)
  qed
qed

text \<open>
  C9.  An empty white list filters nothing: no file fails the test of the white list,
  \<open>load_diagrams\<close> gives what it gives without a white list, and \<open>nb_excluded\<close> is 0 in its
  result.  In every result \<open>nb_excluded\<close> is the number of files of the folder that fail
  the test; and a white list that is not empty and holds no file of the folder excludes
  them all.
\<close>

theorem empty_white_list_excludes_nothing:
  "\<not> not_in_white_list (Some []) file_basename
   \<and> load_diagrams env s rows zip_dir single_dot load_lines load_areas (Some [])
     = load_diagrams env s rows zip_dir single_dot load_lines load_areas None
   \<and> (load_diagrams env s rows zip_dir single_dot load_lines load_areas (Some []) = Inr st
      \<longrightarrow> nb_excluded st = 0)
   \<and> (load_diagrams env s rows (Some entries) single_dot load_lines load_areas white_list
        = Inr st'
      \<longrightarrow> nb_excluded st'
          = length (filter (\<lambda>entry. not_in_white_list white_list (fst entry)) entries))
   \<and> (names \<noteq> [] \<and> (\<forall>entry \<in> set entries. fst entry \<notin> set names)
      \<longrightarrow> load_diagrams env s rows (Some entries) single_dot load_lines load_areas (Some names)
          = Inr \<lparr>diagrams = [], nb_no_label = 0, nb_excluded = length entries,
                 nb_filtered = 0\<rparr>)"
proof (intro conjI impI)
  show "\<not> not_in_white_list (Some []) file_basename"
    by (simp add: not_in_white_list_def)
  show same: "load_diagrams env s rows zip_dir single_dot load_lines load_areas (Some [])
     = load_diagrams env s rows zip_dir single_dot load_lines load_areas None"
    by (cases zip_dir) (simp_all add: load_diagrams_def load_loop_white_list_empty)
  show "nb_excluded st = 0"
    if "load_diagrams env s rows zip_dir single_dot load_lines load_areas (Some []) = Inr st"
  proof (cases zip_dir)
    case None
    with that show ?thesis by (simp add: load_diagrams_def)
  next
    case (Some entries)
    with that load_diagrams_nb_excluded [of env s rows entries single_dot load_lines load_areas
        "Some []" st]
    show ?thesis by (simp add: not_in_white_list_def)
  qed
  show "nb_excluded st'
      = length (filter (\<lambda>entry. not_in_white_list white_list (fst entry)) entries)"
    if "load_diagrams env s rows (Some entries) single_dot load_lines load_areas white_list
        = Inr st'"
    using that by (rule load_diagrams_nb_excluded)
  show "load_diagrams env s rows (Some entries) single_dot load_lines load_areas (Some names)
      = Inr \<lparr>diagrams = [], nb_no_label = 0, nb_excluded = length entries, nb_filtered = 0\<rparr>"
    if h: "names \<noteq> [] \<and> (\<forall>entry \<in> set entries. fst entry \<notin> set names)"
  proof -
    from h have all: "\<forall>entry \<in> set entries. not_in_white_list (Some names) (fst entry)"
      by (simp add: not_in_white_list_def)
    then have f: "filter (\<lambda>entry. not_in_white_list (Some names) (fst entry)) entries = entries"
      by (simp add: filter_id_conv)
    from all have "\<forall>entry \<in> set entries. not_in_white_list (Some names) (fst entry)
      \<or> no_label env (labels_of rows) (fst entry)
      \<or> wrong_dot_count env (labels_of rows) single_dot (fst entry)"
      by simp
    from load_loop_skipped [OF this] all f show ?thesis
      by (simp add: load_diagrams_def filter_empty_conv cong: filter_cong)
  qed
qed

theorem empty_white_list_excludes_nothing_witness:
  "load_diagrams example_env plain_settings [row_a, row_b, row_c] (Some archive_folder)
      True True True (Some [])
     = Inr \<lparr>diagrams = [diagram_a], nb_no_label = 2, nb_excluded = 0, nb_filtered = 1\<rparr>
   \<and> load_diagrams example_env plain_settings [row_a, row_b, row_c] (Some archive_folder)
      True True True None
     = Inr \<lparr>diagrams = [diagram_a], nb_no_label = 2, nb_excluded = 0, nb_filtered = 1\<rparr>
   \<and> load_diagrams example_env plain_settings [row_a, row_b, row_c] (Some archive_folder)
      True True True (Some [''a'', ''b''])
     = Inr \<lparr>diagrams = [diagram_a], nb_no_label = 1, nb_excluded = 2, nb_filtered = 0\<rparr>
   \<and> length (filter (\<lambda>entry. not_in_white_list (Some [''a'', ''b'']) (fst entry))
        archive_folder) = 2
   \<and> load_diagrams example_env plain_settings [row_a, row_b, row_c] (Some archive_folder)
      True True True (Some [''q''])
     = Inr \<lparr>diagrams = [], nb_no_label = 0, nb_excluded = 4, nb_filtered = 0\<rparr>"
proof -
  let ?load = "load_diagrams example_env plain_settings [row_a, row_b, row_c]
      (Some archive_folder) True True True"
  let ?st = "\<lparr>diagrams = [diagram_a], nb_no_label = 2, nb_excluded = 0, nb_filtered = 1\<rparr>
      :: (int, int, (int \<times> int) list, (int \<times> int) list) load_state"
  let ?st' = "\<lparr>diagrams = [diagram_a], nb_no_label = 1, nb_excluded = 2, nb_filtered = 0\<rparr>
      :: (int, int, (int \<times> int) list, (int \<times> int) list) load_state"
  have w: "\<not> not_in_white_list None file_basename"
    "\<not> not_in_white_list (Some [''a'', ''b'']) ''a''"
    "\<not> not_in_white_list (Some [''a'', ''b'']) ''b''"
    "not_in_white_list (Some [''a'', ''b'']) ''c''"
    "not_in_white_list (Some [''a'', ''b'']) ''z''" for file_basename
    by (simp_all add: not_in_white_list_def)
  have none: "?load None = Inr ?st"
    by (simp add: load_diagrams_def archive_folder_def example_load_one_a
          example_load_one_skipped w)
  have listed: "?load (Some [''a'', ''b'']) = Inr ?st'"
    by (simp add: load_diagrams_def archive_folder_def example_load_one_a
          example_load_one_skipped w)
  have q: "[''q''] \<noteq> [] \<and> (\<forall>entry \<in> set archive_folder. fst entry \<notin> set [''q''])"
    by (simp add: archive_folder_def)
  note t = empty_white_list_excludes_nothing [where env = example_env and s = plain_settings
      and rows = "[row_a, row_b, row_c]" and zip_dir = "Some archive_folder"
      and entries = archive_folder and single_dot = True and load_lines = True
      and load_areas = True and st = ?st and st' = ?st' and white_list = "Some [''a'', ''b'']"
      and names = "[''q'']"]
  from t none have empty: "?load (Some []) = Inr ?st" by simp
  from t listed
  have count: "length (filter (\<lambda>entry. not_in_white_list (Some [''a'', ''b'']) (fst entry))
        archive_folder) = 2"
    by simp
  from t q have all: "?load (Some [''q''])
      = Inr \<lparr>diagrams = [], nb_no_label = 0, nb_excluded = 4, nb_filtered = 0\<rparr>"
    by (simp add: archive_folder_def)
  from empty none listed count all show ?thesis by blast
qed






end
